theory Spec2Isabelle
  imports Complex_Main "HOL-Library.Multiset" "HOL-Library.AList"
begin

section \<open>Python values: exceptions, tables, series\<close>

text \<open>
  The exceptions the two scripts can meet. \<open>KeyError\<close> carries the missing keys
  (pandas names every missing label when a list of labels is looked up);
  \<open>OtherError\<close> stands for whatever an estimator raises from inside the library.
\<close>

datatype py_error =
    KeyError "string list"
  | NameError string
  | ValueError
  | FileNotFoundError
  | OtherError string

text \<open>
  A cell of a numeric table is a float; \<open>None\<close> is NaN. Floats are read as real
  numbers: rounding is not modelled, and the infinities are not values of the model
  (the one place where the scripts could produce one, \<open>log1p\<close> at \<open>-1\<close>, is
  folded into NaN below; amounts are non-negative in the data set).

  A row carries the label it had in the prepared table (\<open>Orig i\<close>: its position in the
  file \<open>read_csv\<close> loaded) or \<open>Synth\<close> when a resampler made it up. The resamplers of
  imblearn hand back tables with a fresh positional index; the model keeps the label of
  the row each output row was copied from, so that the provenance of a row can be stated.
\<close>

type_synonym cell = "real option"

datatype origin = Orig nat | Synth

record row =
  rid :: origin
  val :: "string \<Rightarrow> cell"

record frame =
  columns :: "string list"
  rows :: "row list"

text \<open>\<open>df[c]\<close>, \<open>df[[c1, ...]]\<close>, \<open>df[c] = values\<close> and \<open>df.drop(columns=[c])\<close>.\<close>

definition col :: "frame \<Rightarrow> string \<Rightarrow> cell list" where
  "col df c = map (\<lambda>r. val r c) (rows df)"

definition getitem :: "frame \<Rightarrow> string \<Rightarrow> py_error + cell list" where
  "getitem df c = (if c \<in> set (columns df) then Inr (col df c) else Inl (KeyError [c]))"

definition restrict_row :: "string list \<Rightarrow> row \<Rightarrow> row" where
  "restrict_row cs r = r\<lparr>val := (\<lambda>c. if c \<in> set cs then val r c else None)\<rparr>"

definition getitem_list :: "frame \<Rightarrow> string list \<Rightarrow> py_error + frame" where
  "getitem_list df cs =
     (case filter (\<lambda>c. c \<notin> set (columns df)) cs of
        [] \<Rightarrow> Inr \<lparr>columns = cs, rows = map (restrict_row cs) (rows df)\<rparr>
      | m # ms \<Rightarrow> Inl (KeyError (m # ms)))"

definition setitem :: "frame \<Rightarrow> string \<Rightarrow> cell list \<Rightarrow> frame" where
  "setitem df c vs =
     \<lparr>columns = (if c \<in> set (columns df) then columns df else columns df @ [c]),
      rows = map (\<lambda>(r, v). r\<lparr>val := (val r)(c := v)\<rparr>) (zip (rows df) vs)\<rparr>"

definition drop_column :: "frame \<Rightarrow> string \<Rightarrow> py_error + frame" where
  "drop_column df c =
     (if c \<in> set (columns df)
      then (let cs = filter (\<lambda>k. k \<noteq> c) (columns df)
            in Inr \<lparr>columns = cs, rows = map (restrict_row cs) (rows df)\<rparr>)
      else Inl (KeyError [c]))"

text \<open>
  Reductions of pandas skip NaN (\<open>skipna=True\<close>): the sum of no values is 0, the mean
  of no values is NaN, and \<open>std\<close> has \<open>ddof=1\<close> unless told otherwise, so it divides by
  the number of values minus one and is NaN for fewer than two values.
\<close>

definition notna :: "cell list \<Rightarrow> real list" where
  "notna cs = concat (map (\<lambda>c. case c of None \<Rightarrow> [] | Some x \<Rightarrow> [x]) cs)"

definition series_sum :: "cell list \<Rightarrow> cell" where
  "series_sum cs = Some (sum_list (notna cs))"

definition series_mean :: "cell list \<Rightarrow> cell" where
  "series_mean cs =
     (let xs = notna cs
      in if xs = [] then None else Some (sum_list xs / real (length xs)))"

definition series_std :: "cell list \<Rightarrow> cell" where
  "series_std cs =
     (let xs = notna cs; n = length xs
      in if n \<le> 1 then None
         else (let m = sum_list xs / real n
               in Some (sqrt (sum_list (map (\<lambda>x. (x - m)\<^sup>2) xs) / real (n - 1)))))"

section \<open>config.py\<close>

definition digit_char :: "nat \<Rightarrow> char" where
  "digit_char d = ''0123456789'' ! (d mod 10)"

function str_nat :: "nat \<Rightarrow> string" where
  "str_nat n = (if n < 10 then [digit_char n] else str_nat (n div 10) @ [digit_char (n mod 10)])"
  by pat_completeness auto
termination
  by (relation "measure id") auto

definition V_FEATURES :: "string list" where
  "V_FEATURES = map (\<lambda>i. ''V'' @ str_nat i) [1..<29]"

definition TARGET :: string where
  "TARGET = ''Class''"

section \<open>data_cleaning.py\<close>

text \<open>
  \<open>preprocess_data\<close> reads the module global \<open>upper_bound\<close>. It is bound only by the
  block under \<open>if __name__ == "__main__"\<close>; \<open>None\<close> below is the unbound name, and
  \<open>Some b\<close> the float \<open>b\<close> it is bound to (which may be NaN).
\<close>

definition py_mod :: "real \<Rightarrow> real \<Rightarrow> real" where
  "py_mod x m = x - m * of_int (floor (x / m))"

definition log1p :: "real \<Rightarrow> cell" where
  "log1p x = (if -1 < x then Some (ln (1 + x)) else None)"

definition standardize :: "cell \<Rightarrow> cell \<Rightarrow> cell \<Rightarrow> cell" where
  "standardize m s c =
     (case (c, m, s) of
        (Some x, Some mu, Some sd) \<Rightarrow> (if sd = 0 then None else Some ((x - mu) / sd))
      | _ \<Rightarrow> None)"

definition gt_flag :: "cell \<Rightarrow> cell \<Rightarrow> cell" where
  "gt_flag b c =
     (case (c, b) of (Some x, Some u) \<Rightarrow> Some (if u < x then 1 else 0) | _ \<Rightarrow> Some 0)"

definition v_cells :: "row \<Rightarrow> cell list" where
  "v_cells r = map (val r) V_FEATURES"

text \<open>Sequencing of statements that may raise: the first exception ends the run.\<close>

definition and_then :: "'e + 'a \<Rightarrow> ('a \<Rightarrow> 'e + 'b) \<Rightarrow> 'e + 'b" where
  "and_then r f = (case r of Inl e \<Rightarrow> Inl e | Inr a \<Rightarrow> f a)"

text \<open>Line 77: \<open>processed_df['Time'] = processed_df['Time'] / (60 * 60 * 24)\<close>.\<close>

definition normalize_time :: "frame \<Rightarrow> py_error + frame" where
  "normalize_time df =
     and_then (getitem df ''Time'')
       (\<lambda>time. Inr (setitem df ''Time'' (map (map_option (\<lambda>t. t / (60 * 60 * 24))) time)))"

text \<open>Lines 81 to 83: the hour of the day and its sine and cosine.\<close>

definition add_cyclic_time :: "frame \<Rightarrow> py_error + frame" where
  "add_cyclic_time df =
     and_then (getitem df ''Time'')
       (\<lambda>days.
          let hours = map (map_option (\<lambda>d. py_mod (d * 24) 24)) days;
              df1 = setitem df ''Hour_Sin'' (map (map_option (\<lambda>h. sin (2 * pi * h / 24))) hours)
          in Inr (setitem df1 ''Hour_Cos'' (map (map_option (\<lambda>h. cos (2 * pi * h / 24))) hours)))"

text \<open>Line 87: \<open>processed_df['Amount_Log'] = np.log1p(processed_df['Amount'])\<close>.\<close>

definition add_amount_log :: "frame \<Rightarrow> py_error + frame" where
  "add_amount_log df =
     and_then (getitem df ''Amount'')
       (\<lambda>amount. Inr (setitem df ''Amount_Log'' (map (\<lambda>c. Option.bind c log1p) amount)))"

text \<open>
  Lines 91 to 97. The column means and deviations of the V columns are computed and
  never used, but looking the columns up raises when one is missing.
\<close>

definition scale_amount :: "frame \<Rightarrow> py_error + frame" where
  "scale_amount df =
     and_then (getitem_list df V_FEATURES)
       (\<lambda>v_frame.
     and_then (getitem df ''Amount_Log'')
       (\<lambda>amount_log.
          let amount_mean = series_mean amount_log;
              amount_std = series_std amount_log
          in Inr (setitem df ''Amount_Scaled''
                    (map (standardize amount_mean amount_std) amount_log))))"

text \<open>
  Line 103: \<open>(processed_df['Amount'] > upper_bound).astype(int)\<close>. The column is
  looked up first, then the global name.
\<close>

definition flag_outliers :: "cell option \<Rightarrow> frame \<Rightarrow> py_error + frame" where
  "flag_outliers upper_bound df =
     and_then (getitem df ''Amount'')
       (\<lambda>amount.
          case upper_bound of
            None \<Rightarrow> Inl (NameError ''upper_bound'')
          | Some b \<Rightarrow> Inr (setitem df ''Amount_Outlier'' (map (gt_flag b) amount)))"

text \<open>Lines 107 to 109: the row-wise sum, mean and \<open>std\<close> of the V columns.\<close>

definition row_aggregate :: "(cell list \<Rightarrow> cell) \<Rightarrow> string \<Rightarrow> frame \<Rightarrow> py_error + frame" where
  "row_aggregate agg name df =
     and_then (getitem_list df V_FEATURES)
       (\<lambda>v_frame. Inr (setitem df name (map (\<lambda>r. agg (v_cells r)) (rows v_frame))))"

definition preprocess_data :: "cell option \<Rightarrow> frame \<Rightarrow> py_error + frame" where
  "preprocess_data upper_bound df =
     and_then (normalize_time df) (\<lambda>df1.
     and_then (add_cyclic_time df1) (\<lambda>df2.
     and_then (add_amount_log df2) (\<lambda>df3.
     and_then (scale_amount df3) (\<lambda>df4.
     and_then (flag_outliers upper_bound df4) (\<lambda>df5.
     and_then (row_aggregate series_sum ''V_Sum'' df5) (\<lambda>df6.
     and_then (row_aggregate series_mean ''V_Mean'' df6) (\<lambda>df7.
     row_aggregate series_std ''V_Std'' df7)))))))"

section \<open>Files, the log and the generator\<close>

text \<open>
  The state the scripts share is the file system: the CSV files and pickles named in
  \<open>config.py\<close>, and the error lines of the log (information lines, plots and the
  feature-importance tables are diagnostics and are left out). A CSV file is written
  with \<open>index=False\<close>, so reading it back numbers the rows from 0. A function that
  touches the state returns its result, or the exception it raised, with the state it
  left behind. The type \<open>'m\<close> is that of a fitted estimator.
\<close>

record scores =
  auc :: real
  precision :: real
  recall :: real
  f1 :: real

record evaluation = scores +
  confusion_matrix :: "nat list list"

record model_info =
  model_name :: string
  training_date :: string
  metrics :: scores
  feature_count :: nat

record 'm fs =
  raw_data_file :: "frame option"
  cleaned_data_file :: "frame option"
  train_data_file :: "frame option"
  test_data_file :: "frame option"
  model_pkl :: "string \<Rightarrow> 'm option"
  model_file :: "'m option"
  model_comparison_csv :: "(string \<times> scores) list option"
  model_info_csv :: "model_info option"
  sql_export_csv :: "frame option"
  excel_export_csv :: "frame option"
  error_log :: "(string \<times> py_error) list"

definition log_error :: "string \<Rightarrow> py_error \<Rightarrow> 'm fs \<Rightarrow> 'm fs" where
  "log_error msg e s = s\<lparr>error_log := error_log s @ [(msg, e)]\<rparr>"

definition read_csv :: "frame \<Rightarrow> frame" where
  "read_csv f = f\<lparr>rows := map (\<lambda>(i, r). r\<lparr>rid := Orig i\<rparr>) (enumerate 0 (rows f))\<rparr>"

text \<open>
  Every library object of the scripts is built with \<open>random_state=RANDOM_STATE\<close> and
  seeds a generator of its own. How numpy turns the seed into choices is not modelled:
  the raw draws of each generator are an input, a list of numbers read from the left
  (0 once the list is used up). A permutation picks one of the remaining elements per
  draw, so every order is the result of some draws; sampling without replacement is a
  prefix of a permutation, as in numpy.
\<close>

type_synonym rng = "nat list"

definition draw :: "rng \<Rightarrow> nat \<times> rng" where
  "draw g = (case g of [] \<Rightarrow> (0, []) | d # ds \<Rightarrow> (d, ds))"

function permutation :: "'a list \<Rightarrow> rng \<Rightarrow> 'a list \<times> rng" where
  "permutation xs g =
     (if xs = [] then ([], g)
      else (let (d, g1) = draw g;
                k = d mod length xs;
                (ys, g2) = permutation (take k xs @ drop (Suc k) xs) g1
            in (xs ! k # ys, g2)))"
  by pat_completeness auto
termination
proof (relation "measure (\<lambda>(xs, g). length xs)")
  show "wf (measure (\<lambda>(xs, g). length xs))"
    by simp
next
  fix xs :: "'a list" and g :: rng and x :: "nat \<times> rng" and d g1 k
  assume "xs \<noteq> []" and "k = d mod length xs"
  then have "k < length xs"
    by simp
  then show "((take k xs @ drop (Suc k) xs, g1), (xs, g)) \<in> measure (\<lambda>(xs, g). length xs)"
    by simp
qed

declare permutation.simps [simp del]

fun draws :: "nat \<Rightarrow> rng \<Rightarrow> nat list \<times> rng" where
  "draws 0 g = ([], g)"
| "draws (Suc n) g = (let (d, g1) = draw g; (ds, g2) = draws n g1 in (d # ds, g2))"

section \<open>model\_training.py: the split\<close>

definition TEST_SIZE :: real where
  "TEST_SIZE = 0.2"

definition UNDERSAMPLING_RATIO :: real where
  "UNDERSAMPLING_RATIO = 0.5"

text \<open>
  \<open>sklearn.model_selection.train_test_split\<close> with a float \<open>test_size\<close>, no
  \<open>train_size\<close> and \<open>stratify\<close>: the sizes, the allocation of each class to the two
  parts (\<open>_approximate_mode\<close>), and the shuffled indices of \<open>StratifiedShuffleSplit\<close>.
  A class label is a number (the \<open>Class\<close> column).
\<close>

definition validate_shuffle_split :: "nat \<Rightarrow> real \<Rightarrow> py_error + (nat \<times> nat)" where
  "validate_shuffle_split n_samples test_size =
     (let n_test = nat (ceiling (test_size * real n_samples));
          n_train = n_samples - n_test
      in if n_train = 0 then Inl ValueError else Inr (n_train, n_test))"

definition add_now_step ::
    "real \<Rightarrow> real list \<Rightarrow> nat list \<Rightarrow> nat \<Rightarrow> rng \<Rightarrow> nat list \<times> nat \<times> rng" where
  "add_now_step v remainder floored need_to_add g =
     (let inds = filter (\<lambda>i. remainder ! i = v) [0..<length remainder];
          add_now = min (length inds) need_to_add;
          (perm, g1) = permutation inds g;
          chosen = take add_now perm
      in (map (\<lambda>(i, f). if i \<in> set chosen then f + 1 else f) (enumerate 0 floored),
          need_to_add - add_now, g1))"

fun add_to_classes :: "real list \<Rightarrow> real list \<Rightarrow> nat list \<Rightarrow> nat \<Rightarrow> rng \<Rightarrow> nat list \<times> rng" where
  "add_to_classes [] remainder floored need_to_add g = (floored, g)"
| "add_to_classes (v # values) remainder floored need_to_add g =
     (case add_now_step v remainder floored need_to_add g of
        (floored1, need1, g1) \<Rightarrow>
          if need1 = 0 then (floored1, g1)
          else add_to_classes values remainder floored1 need1 g1)"

definition approximate_mode :: "nat list \<Rightarrow> nat \<Rightarrow> rng \<Rightarrow> nat list \<times> rng" where
  "approximate_mode class_counts n_draws g =
     (let continuous = map (\<lambda>c. real c / real (sum_list class_counts) * real n_draws) class_counts;
          floored = map (\<lambda>x. nat (floor x)) continuous;
          need_to_add = n_draws - sum_list floored
      in if 0 < need_to_add
         then (let remainder = map (\<lambda>x. x - real (nat (floor x))) continuous;
                   values = rev (sort (remdups remainder))
               in add_to_classes values remainder floored need_to_add g)
         else (floored, g))"

definition unique :: "real list \<Rightarrow> real list" where
  "unique y = sort (remdups y)"

definition flatnonzero :: "real list \<Rightarrow> real \<Rightarrow> nat list" where
  "flatnonzero y c = filter (\<lambda>i. y ! i = c) [0..<length y]"

fun split_classes :: "nat list list \<Rightarrow> nat list \<Rightarrow> nat list \<Rightarrow> rng \<Rightarrow> (nat list \<times> nat list) \<times> rng" where
  "split_classes (members # rest) (n # ns) (t # ts) g =
     (let (perm, g1) = permutation members g;
          ((train, test), g2) = split_classes rest ns ts g1
      in ((take n perm @ train, take t (drop n perm) @ test), g2))"
| "split_classes rest ns ts g = (([], []), g)"

definition stratified_shuffle_split ::
    "real list \<Rightarrow> nat \<Rightarrow> nat \<Rightarrow> rng \<Rightarrow> py_error + (nat list \<times> nat list)" where
  "stratified_shuffle_split y n_train n_test g =
     (let classes = unique y;
          n_classes = length classes;
          class_counts = map (count_list y) classes
      in if \<exists>c \<in> set class_counts. c < 2 then Inl ValueError
         else if n_train < n_classes then Inl ValueError
         else if n_test < n_classes then Inl ValueError
         else (let class_indices = map (flatnonzero y) classes;
                   (n_i, g1) = approximate_mode class_counts n_train g;
                   class_counts_remaining = map (\<lambda>(c, n). c - n) (zip class_counts n_i);
                   (t_i, g2) = approximate_mode class_counts_remaining n_test g1;
                   ((train, test), g3) = split_classes class_indices n_i t_i g2;
                   (train1, g4) = permutation train g3;
                   (test1, g5) = permutation test g4
               in Inr (train1, test1)))"

definition take_rows :: "frame \<Rightarrow> nat list \<Rightarrow> frame" where
  "take_rows X idx = X\<lparr>rows := map (\<lambda>i. rows X ! i) idx\<rparr>"

definition train_test_split ::
    "frame \<Rightarrow> cell list \<Rightarrow> real \<Rightarrow> rng \<Rightarrow> py_error + (frame \<times> frame \<times> real list \<times> real list)" where
  "train_test_split X target test_size g =
     and_then (validate_shuffle_split (length (rows X)) test_size) (\<lambda>(n_train, n_test).
       if None \<in> set target then Inl ValueError
       else (let y = notna target
             in and_then (stratified_shuffle_split y n_train n_test g) (\<lambda>(train, test).
                  Inr (take_rows X train, take_rows X test,
                       map (\<lambda>i. y ! i) train, map (\<lambda>i. y ! i) test))))"

text \<open>\<open>pd.concat([X, y], axis=1)\<close>: the label column comes back as the last column.\<close>

definition concat_target :: "frame \<Rightarrow> real list \<Rightarrow> frame" where
  "concat_target X y = setitem X TARGET (map Some y)"

definition prepare_train_test_split ::
    "rng \<Rightarrow> frame \<Rightarrow> 'm fs \<Rightarrow> (py_error + (frame \<times> frame \<times> real list \<times> real list)) \<times> 'm fs" where
  "prepare_train_test_split g df s =
     (case and_then (drop_column df ''Class'') (\<lambda>features.
           and_then (getitem df ''Class'') (\<lambda>target.
             train_test_split features target TEST_SIZE g)) of
        Inl e \<Rightarrow> (Inl e, s)
      | Inr (X_train, X_test, y_train, y_test) \<Rightarrow>
          (Inr (X_train, X_test, y_train, y_test),
           s\<lparr>train_data_file := Some (concat_target X_train y_train),
             test_data_file := Some (concat_target X_test y_test)\<rparr>))"

section \<open>model\_training.py: feature selection\<close>

definition startswith :: "string \<Rightarrow> string \<Rightarrow> bool" where
  "startswith s p = (take (length p) s = p)"

definition preprocess_features ::
    "frame \<Rightarrow> frame \<Rightarrow> py_error + (frame \<times> frame \<times> string list)" where
  "preprocess_features X_train X_test =
     (let selected_features =
            filter (\<lambda>col. startswith col ''V'' \<or>
                      col \<in> set [''Amount_Scaled'', ''Hour_Sin'', ''Hour_Cos'',
                                  ''V_Sum'', ''V_Mean'', ''V_Std''])
              (columns X_train)
      in and_then (getitem_list X_train selected_features) (\<lambda>X_train_selected.
         and_then (getitem_list X_test selected_features) (\<lambda>X_test_selected.
           Inr (X_train_selected, X_test_selected, selected_features))))"

section \<open>model\_training.py: resampling\<close>

text \<open>
  The two resamplers of imblearn, called with a dictionary from class to the number of
  rows wanted. Both refuse a dictionary that names a class the labels do not have.
  \<open>RandomUnderSampler\<close> refuses to be asked for more rows than a class has, and
  draws the rows of each named class without replacement, class by class in the order
  of the sorted labels; a class it is not asked about is kept whole.
\<close>

definition keys_present :: "(real \<times> nat) list \<Rightarrow> real list \<Rightarrow> bool" where
  "keys_present strategy y = (\<forall>c \<in> set (map fst strategy). c \<in> set y)"

fun under_indices :: "real list \<Rightarrow> (real \<times> nat) list \<Rightarrow> real list \<Rightarrow> rng \<Rightarrow> nat list \<times> rng" where
  "under_indices y strategy [] g = ([], g)"
| "under_indices y strategy (c # classes) g =
     (case map_of strategy c of
        Some n \<Rightarrow>
          (let (perm, g1) = permutation (flatnonzero y c) g;
               (more, g2) = under_indices y strategy classes g1
           in (take n perm @ more, g2))
      | None \<Rightarrow>
          (let (more, g1) = under_indices y strategy classes g
           in (flatnonzero y c @ more, g1)))"

definition random_under_sampler ::
    "(real \<times> nat) list \<Rightarrow> rng \<Rightarrow> frame \<Rightarrow> real list \<Rightarrow> py_error + (frame \<times> real list)" where
  "random_under_sampler strategy g X y =
     (if length (rows X) \<noteq> length y then Inl ValueError
      else if \<not> keys_present strategy y then Inl ValueError
      else if \<exists>(c, n) \<in> set strategy. count_list y c < n then Inl ValueError
      else (let idx_under = fst (under_indices y strategy (unique y) g)
            in Inr (take_rows X idx_under, map (\<lambda>i. y ! i) idx_under)))"

text \<open>
  \<open>SMOTE\<close> refuses NaN in the features and a request for fewer rows than a class
  has. For a class that needs new rows it looks up, for every row of the class, its 5
  nearest other rows of the class (it asks for 6 neighbours and drops the first, which
  fails when the class has fewer than 6 rows), then makes each new row between a
  drawn row and a drawn neighbour of it, at a drawn fraction of the way. Distances
  are Euclidean over the columns; rows at equal distance are taken in row order. The
  rows given come back unchanged, followed by the new ones.
\<close>

definition K_NEIGHBORS :: nat where
  "K_NEIGHBORS = 5"

definition has_nan :: "frame \<Rightarrow> bool" where
  "has_nan X = (\<exists>r \<in> set (rows X). \<exists>c \<in> set (columns X). val r c = None)"

definition sq_dist :: "string list \<Rightarrow> row \<Rightarrow> row \<Rightarrow> real" where
  "sq_dist cs a b =
     sum_list (map (\<lambda>c. case (val a c, val b c) of
                          (Some x, Some z) \<Rightarrow> (x - z)\<^sup>2 | _ \<Rightarrow> 0) cs)"

definition kneighbors :: "string list \<Rightarrow> row list \<Rightarrow> nat list list" where
  "kneighbors cs X_class =
     map (\<lambda>r. take K_NEIGHBORS (drop 1
            (sort_key (\<lambda>j. sq_dist cs r (X_class ! j)) [0..<length X_class])))
       X_class"

definition uniform :: "nat \<Rightarrow> real" where
  "uniform d = real (d mod 2 ^ 53) / 2 ^ 53"

definition interpolate :: "string list \<Rightarrow> row \<Rightarrow> row \<Rightarrow> real \<Rightarrow> row" where
  "interpolate cs a b step =
     \<lparr>rid = Synth,
      val = (\<lambda>c. if c \<in> set cs
                  then (case (val a c, val b c) of
                          (Some x, Some z) \<Rightarrow> Some (x + step * (z - x)) | _ \<Rightarrow> None)
                  else None)\<rparr>"

definition make_samples :: "string list \<Rightarrow> row list \<Rightarrow> nat list list \<Rightarrow> nat \<Rightarrow> rng \<Rightarrow> row list \<times> rng" where
  "make_samples cs X_class nns n_samples g =
     (let (samples_indices, g1) = draws n_samples g;
          (steps, g2) = draws n_samples g1
      in (map (\<lambda>(d, u).
                 let i = d mod (length X_class * K_NEIGHBORS);
                     r = i div K_NEIGHBORS;
                     k = i mod K_NEIGHBORS
                 in interpolate cs (X_class ! r) (X_class ! (nns ! r ! k)) (uniform u))
            (zip samples_indices steps), g2))"

fun smote_classes ::
    "frame \<Rightarrow> real list \<Rightarrow> (real \<times> nat) list \<Rightarrow> rng \<Rightarrow> py_error + (row list \<times> real list)" where
  "smote_classes X y [] g = Inr ([], [])"
| "smote_classes X y ((c, n) # strategy) g =
     (if n = 0 then smote_classes X y strategy g
      else (let X_class = map (\<lambda>i. rows X ! i) (flatnonzero y c)
            in if length X_class < K_NEIGHBORS + 1 then Inl ValueError
               else (let (X_new, g1) = make_samples (columns X) X_class
                                         (kneighbors (columns X) X_class) n g
                     in and_then (smote_classes X y strategy g1) (\<lambda>(X_more, y_more).
                          Inr (X_new @ X_more, replicate n c @ y_more)))))"

definition smote ::
    "(real \<times> nat) list \<Rightarrow> rng \<Rightarrow> frame \<Rightarrow> real list \<Rightarrow> py_error + (frame \<times> real list)" where
  "smote strategy g X y =
     (if length (rows X) \<noteq> length y then Inl ValueError
      else if has_nan X then Inl ValueError
      else if \<not> keys_present strategy y then Inl ValueError
      else if \<exists>(c, n) \<in> set strategy. n < count_list y c then Inl ValueError
      else and_then
             (smote_classes X y
                (map (\<lambda>(c, n). (c, n - count_list y c)) (sort_key fst strategy)) g)
             (\<lambda>(X_new, y_new). Inr (X\<lparr>rows := rows X @ X_new\<rparr>, y @ y_new)))"

text \<open>\<open>pd.Series(y).value_counts()[c]\<close>: classes that do not occur have no entry.\<close>

definition value_count :: "real list \<Rightarrow> real \<Rightarrow> string \<Rightarrow> py_error + nat" where
  "value_count y c key = (if c \<in> set y then Inr (count_list y c) else Inl (KeyError [key]))"

definition handle_imbalanced_data ::
    "rng \<Rightarrow> rng \<Rightarrow> frame \<Rightarrow> real list \<Rightarrow> py_error + (frame \<times> real list)" where
  "handle_imbalanced_data g_under g_over X_train y_train =
     and_then (value_count y_train 0 ''0'') (\<lambda>majority_class_count.
     and_then (value_count y_train 1 ''1'') (\<lambda>minority_class_count.
       let target_majority_count = nat (floor (real majority_class_count * UNDERSAMPLING_RATIO))
       in and_then (random_under_sampler
                      [(0, target_majority_count), (1, minority_class_count)] g_under
                      X_train y_train) (\<lambda>(X_resampled, y_resampled).
            let target_minority_count = nat (floor (real target_majority_count * 0.5))
            in smote [(0, target_majority_count), (1, target_minority_count)] g_over
                 X_resampled y_resampled)))"

section \<open>model\_training.py: training, evaluation, the pipeline\<close>

text \<open>
  What scikit-learn computes is an input of the model: a record of the library calls
  the script makes, each returning its value or the exception it raised. Models are
  handled by name, in the order of the dictionary literal of \<open>train_models\<close>.
\<close>

record 'm sklearn =
  cross_val_score :: "string \<Rightarrow> frame \<Rightarrow> real list \<Rightarrow> py_error + real list"
  fit :: "string \<Rightarrow> frame \<Rightarrow> real list \<Rightarrow> py_error + 'm"
  predict :: "'m \<Rightarrow> frame \<Rightarrow> py_error + real list"
  predict_proba :: "'m \<Rightarrow> frame \<Rightarrow> py_error + real list"
  roc_auc_score :: "real list \<Rightarrow> real list \<Rightarrow> py_error + real"
  classification_report :: "real list \<Rightarrow> real list \<Rightarrow> py_error + (real \<times> real \<times> real)"
  confusion :: "real list \<Rightarrow> real list \<Rightarrow> nat list list"

definition model_names :: "string list" where
  "model_names = [''logistic_regression'', ''random_forest'', ''gradient_boosting'']"

fun train_loop ::
    "'m sklearn \<Rightarrow> frame \<Rightarrow> real list \<Rightarrow> string list \<Rightarrow> (string \<times> 'm) list \<Rightarrow> 'm fs \<Rightarrow>
     (py_error + (string \<times> 'm) list) \<times> 'm fs" where
  "train_loop sk X_train y_train [] trained_models s = (Inr trained_models, s)"
| "train_loop sk X_train y_train (name # names) trained_models s =
     (case cross_val_score sk name X_train y_train of
        Inl e \<Rightarrow> (Inl e, s)
      | Inr cv_scores \<Rightarrow>
          (case fit sk name X_train y_train of
             Inl e \<Rightarrow> (Inl e, s)
           | Inr model \<Rightarrow>
               train_loop sk X_train y_train names
                 (AList.update name model trained_models)
                 (s\<lparr>model_pkl := (model_pkl s)(name \<mapsto> model)\<rparr>)))"

definition train_models ::
    "'m sklearn \<Rightarrow> frame \<Rightarrow> real list \<Rightarrow> string list \<Rightarrow> 'm fs \<Rightarrow>
     (py_error + (string \<times> 'm) list) \<times> 'm fs" where
  "train_models sk X_train y_train selected_features s =
     train_loop sk X_train y_train model_names [] s"

fun evaluate_loop ::
    "'m sklearn \<Rightarrow> (string \<times> 'm) list \<Rightarrow> frame \<Rightarrow> real list \<Rightarrow> (string \<times> evaluation) list \<Rightarrow>
     py_error + (string \<times> evaluation) list" where
  "evaluate_loop sk [] X_test y_test results = Inr results"
| "evaluate_loop sk ((name, model) # models) X_test y_test results =
     and_then (predict sk model X_test) (\<lambda>y_pred.
     and_then (predict_proba sk model X_test) (\<lambda>y_pred_proba.
     and_then (roc_auc_score sk y_test y_pred_proba) (\<lambda>auc_score.
     and_then (classification_report sk y_test y_pred) (\<lambda>(p, r, f).
       evaluate_loop sk models X_test y_test
         (AList.update name
            \<lparr>auc = auc_score, precision = p, recall = r, f1 = f,
             confusion_matrix = confusion sk y_test y_pred\<rparr> results)))))"

text \<open>\<open>Series.idxmax\<close>: the position of the first largest value; no value, no answer.\<close>

fun argmax_from :: "real list \<Rightarrow> nat \<Rightarrow> nat \<Rightarrow> real \<Rightarrow> nat" where
  "argmax_from [] i best best_value = best"
| "argmax_from (x # xs) i best best_value =
     (if best_value < x then argmax_from xs (Suc i) i x
      else argmax_from xs (Suc i) best best_value)"

definition idxmax :: "real list \<Rightarrow> py_error + nat" where
  "idxmax xs = (case xs of [] \<Rightarrow> Inl ValueError | x # rest \<Rightarrow> Inr (argmax_from rest 1 0 x))"

text \<open>\<open>datetime.now().strftime('%Y-%m-%d %H:%M:%S')\<close>; the clock is an input.\<close>

record datetime =
  year :: nat
  month :: nat
  day :: nat
  hour :: nat
  minute :: nat
  second :: nat

definition pad2 :: "nat \<Rightarrow> string" where
  "pad2 n = (if n < 10 then ''0'' @ str_nat n else str_nat n)"

definition pad4 :: "nat \<Rightarrow> string" where
  "pad4 n = replicate (4 - length (str_nat n)) (CHR ''0'') @ str_nat n"

definition strftime :: "datetime \<Rightarrow> string" where
  "strftime t =
     pad4 (year t) @ ''-'' @ pad2 (month t) @ ''-'' @ pad2 (day t) @ '' '' @
     pad2 (hour t) @ '':'' @ pad2 (minute t) @ '':'' @ pad2 (second t)"

definition scores_of :: "evaluation \<Rightarrow> scores" where
  "scores_of r = \<lparr>auc = auc r, precision = precision r, recall = recall r, f1 = f1 r\<rparr>"

definition lookup :: "('k \<times> 'v) list \<Rightarrow> 'k \<Rightarrow> string \<Rightarrow> py_error + 'v" where
  "lookup d k key = (case map_of d k of None \<Rightarrow> Inl (KeyError [key]) | Some v \<Rightarrow> Inr v)"

definition evaluate_models ::
    "'m sklearn \<Rightarrow> datetime \<Rightarrow> (string \<times> 'm) list \<Rightarrow> frame \<Rightarrow> real list \<Rightarrow> 'm fs \<Rightarrow>
     (py_error + (string \<times> (string \<times> evaluation) list)) \<times> 'm fs" where
  "evaluate_models sk now models X_test y_test s =
     (case evaluate_loop sk models X_test y_test [] of
        Inl e \<Rightarrow> (Inl e, s)
      | Inr results \<Rightarrow>
          (let s1 = s\<lparr>model_comparison_csv := Some (map (\<lambda>(n, r). (n, scores_of r)) results)\<rparr>
           in case and_then (idxmax (map (\<lambda>(n, r). auc r) results)) (\<lambda>k.
                     let best_model_name = fst (results ! k)
                     in and_then (lookup models best_model_name best_model_name) (\<lambda>best_model.
                          Inr (best_model_name, best_model))) of
                Inl e \<Rightarrow> (Inl e, s1)
              | Inr (best_model_name, best_model) \<Rightarrow>
                  (let s2 = s1\<lparr>model_file := Some best_model\<rparr>
                   in case lookup results best_model_name best_model_name of
                        Inl e \<Rightarrow> (Inl e, s2)
                      | Inr best \<Rightarrow>
                          (Inr (best_model_name, results),
                           s2\<lparr>model_info_csv := Some
                                \<lparr>model_name = best_model_name,
                                 training_date = strftime now,
                                 metrics = scores_of best,
                                 feature_count = length (columns X_test)\<rparr>\<rparr>))))"

text \<open>
  \<open>load_prepared_data\<close> falls back on \<open>data_cleaning\<close> when the cleaned file is
  missing. It imports the module, so the block under \<open>__main__\<close> does not run and
  \<open>upper_bound\<close> is unbound when \<open>preprocess_data\<close> is called.
\<close>

definition load_raw_data :: "'m fs \<Rightarrow> (py_error + frame) \<times> 'm fs" where
  "load_raw_data s =
     (case raw_data_file s of
        Some f \<Rightarrow> (Inr (read_csv f), s)
      | None \<Rightarrow> (Inl FileNotFoundError, log_error ''Error loading raw data'' FileNotFoundError s))"

definition load_prepared_data :: "'m fs \<Rightarrow> (py_error + frame) \<times> 'm fs" where
  "load_prepared_data s =
     (case cleaned_data_file s of
        Some f \<Rightarrow> (Inr (read_csv f), s)
      | None \<Rightarrow>
          (let s1 = log_error ''Cleaned data file not found'' FileNotFoundError s
           in case load_raw_data s1 of
                (Inl e, s2) \<Rightarrow> (Inl e, log_error ''Error loading and cleaning raw data'' e s2)
              | (Inr raw_df, s2) \<Rightarrow>
                  (case preprocess_data None raw_df of
                     Inl e \<Rightarrow> (Inl e, log_error ''Error loading and cleaning raw data'' e s2)
                   | Inr processed_df \<Rightarrow>
                       (Inr processed_df, s2\<lparr>cleaned_data_file := Some processed_df\<rparr>))))"

text \<open>
  The body of \<open>main\<close> up to the evaluation, with the values of its local variables.
  Each seeded library object has draws of its own. \<open>main\<close> catches every exception,
  logs it and returns. The export of the predictions after the evaluation writes
  report files only and is not modelled.
\<close>

record 'm locals =
  X_train :: frame
  X_test :: frame
  y_train :: "real list"
  y_test :: "real list"
  X_train_processed :: frame
  X_test_processed :: frame
  selected_features :: "string list"
  X_train_balanced :: frame
  y_train_balanced :: "real list"
  trained_models :: "(string \<times> 'm) list"
  best_model_name :: string
  results :: "(string \<times> evaluation) list"

record seeds =
  split_draws :: rng
  under_draws :: rng
  over_draws :: rng

definition pipeline ::
    "'m sklearn \<Rightarrow> seeds \<Rightarrow> datetime \<Rightarrow> 'm fs \<Rightarrow> (py_error + 'm locals) \<times> 'm fs" where
  "pipeline sk g now s =
     (case load_prepared_data s of
        (Inl e, s1) \<Rightarrow> (Inl e, s1)
      | (Inr df, s1) \<Rightarrow>
     (case prepare_train_test_split (split_draws g) df s1 of
        (Inl e, s2) \<Rightarrow> (Inl e, s2)
      | (Inr (Xtr, Xte, ytr, yte), s2) \<Rightarrow>
     (case preprocess_features Xtr Xte of
        Inl e \<Rightarrow> (Inl e, s2)
      | Inr (Xtr_p, Xte_p, sel) \<Rightarrow>
     (case handle_imbalanced_data (under_draws g) (over_draws g) Xtr_p ytr of
        Inl e \<Rightarrow> (Inl e, s2)
      | Inr (Xb, yb) \<Rightarrow>
     (case train_models sk Xb yb sel s2 of
        (Inl e, s3) \<Rightarrow> (Inl e, s3)
      | (Inr trained, s3) \<Rightarrow>
     (case evaluate_models sk now trained Xte_p yte s3 of
        (Inl e, s4) \<Rightarrow> (Inl e, s4)
      | (Inr (best, res), s4) \<Rightarrow>
          (Inr \<lparr>X_train = Xtr, X_test = Xte, y_train = ytr, y_test = yte,
                X_train_processed = Xtr_p, X_test_processed = Xte_p,
                selected_features = sel, X_train_balanced = Xb, y_train_balanced = yb,
                trained_models = trained, best_model_name = best, results = res\<rparr>,
           s4)))))))"

definition main :: "'m sklearn \<Rightarrow> seeds \<Rightarrow> datetime \<Rightarrow> 'm fs \<Rightarrow> 'm fs" where
  "main sk g now s =
     (case pipeline sk g now s of
        (Inl e, s1) \<Rightarrow> log_error ''Error in model training pipeline'' e s1
      | (Inr run, s1) \<Rightarrow> s1)"

section \<open>Auxiliary notions for the proofs\<close>

text \<open>
  A table \<open>df'\<close> extends \<open>df\<close> by the columns \<open>C\<close> when it has the columns of \<open>df\<close>
  and those of \<open>C\<close>, the same rows in the same order, and the same cells outside \<open>C\<close>.
\<close>

definition extends :: "string set \<Rightarrow> frame \<Rightarrow> frame \<Rightarrow> bool" where
  "extends C df df' \<longleftrightarrow>
     set (columns df') = set (columns df) \<union> C \<and> length (rows df') = length (rows df) \<and>
     (\<forall>i<length (rows df). rid (rows df' ! i) = rid (rows df ! i) \<and>
        (\<forall>k. k \<notin> C \<longrightarrow> val (rows df' ! i) k = val (rows df ! i) k))"

text \<open>The columns of the raw file, and a one-row table over them.\<close>

definition raw_columns :: "string list" where
  "raw_columns = ''Time'' # V_FEATURES @ [''Amount'', ''Class'']"

definition sample_row :: row where
  "sample_row = \<lparr>rid = Orig 0, val = (\<lambda>c. if c = ''V1'' then Some 1 else Some 0)\<rparr>"

definition sample_raw :: frame where
  "sample_raw = \<lparr>columns = raw_columns, rows = [sample_row]\<rparr>"

definition sample_fs :: "unit fs" where
  "sample_fs = \<lparr>raw_data_file = Some sample_raw, cleaned_data_file = None,
     train_data_file = None, test_data_file = None, model_pkl = (\<lambda>n. None), model_file = None,
     model_comparison_csv = None, model_info_csv = None, sql_export_csv = None,
     excel_export_csv = None, error_log = []\<rparr>"

definition derived_columns :: "string set" where
  "derived_columns = {''Time'', ''Hour_Sin'', ''Hour_Cos'', ''Amount_Log'', ''Amount_Scaled'',
     ''Amount_Outlier'', ''V_Sum'', ''V_Mean'', ''V_Std''}"

text \<open>
  The population standard deviation, as the specification words it: the root of the
  mean squared deviation, with the number of values as the divisor.
\<close>

definition population_std :: "real list \<Rightarrow> real" where
  "population_std xs =
     sqrt (sum_list (map (\<lambda>x. (x - sum_list xs / real (length xs))\<^sup>2) xs) / real (length xs))"


text \<open>The columns of the table \<open>preprocess_data\<close> makes of the raw columns, and the features selected from them.\<close>

definition prepared_columns :: "string list" where
  "prepared_columns = raw_columns @ [''Hour_Sin'', ''Hour_Cos'', ''Amount_Log'', ''Amount_Scaled'',
     ''Amount_Outlier'', ''V_Sum'', ''V_Mean'', ''V_Std'']"

definition selected_of_prepared :: "string list" where
  "selected_of_prepared = V_FEATURES @ [''Hour_Sin'', ''Hour_Cos'', ''Amount_Scaled'',
     ''V_Sum'', ''V_Mean'', ''V_Std'']"

text \<open>What the evaluation loop computes for one model.\<close>

definition evaluate_one :: "'m sklearn \<Rightarrow> frame \<Rightarrow> real list \<Rightarrow> 'm \<Rightarrow> py_error + evaluation" where
  "evaluate_one sk X y model =
     and_then (predict sk model X) (\<lambda>y_pred.
     and_then (predict_proba sk model X) (\<lambda>y_pred_proba.
     and_then (roc_auc_score sk y y_pred_proba) (\<lambda>auc_score.
     and_then (classification_report sk y y_pred) (\<lambda>(p, r, f).
       Inr \<lparr>auc = auc_score, precision = p, recall = r, f1 = f,
            confusion_matrix = confusion sk y y_pred\<rparr>))))"



definition no_files :: "'m fs" where
  "no_files = \<lparr>raw_data_file = None, cleaned_data_file = None,
     train_data_file = None, test_data_file = None, model_pkl = (\<lambda>n. None), model_file = None,
     model_comparison_csv = None, model_info_csv = None, sql_export_csv = None,
     excel_export_csv = None, error_log = []\<rparr>"

definition sample_sklearn :: "real sklearn" where
  "sample_sklearn =
     \<lparr>cross_val_score = (\<lambda>name X y. Inr []),
      fit = (\<lambda>name X y. Inr 0),
      predict = (\<lambda>m X. Inr []),
      predict_proba = (\<lambda>m X. Inr [m]),
      roc_auc_score = (\<lambda>y p. case p of [a] \<Rightarrow> Inr a | _ \<Rightarrow> Inl ValueError),
      classification_report = (\<lambda>y p. Inr (0, 0, 0)),
      confusion = (\<lambda>y p. [])\<rparr>"


definition tied_models :: "(string \<times> real) list" where
  "tied_models = [(''logistic_regression'', 0.95), (''random_forest'', 0.95),
                  (''gradient_boosting'', 0.90)]"

definition sample_now :: datetime where
  "sample_now = \<lparr>year = 2024, month = 5, day = 1, hour = 13, minute = 45, second = 10\<rparr>"

definition no_table :: frame where
  "no_table = \<lparr>columns = [], rows = []\<rparr>"




section \<open>Feature preparation\<close>

lemma V_FEATURES_list:
  "V_FEATURES = [''V1'', ''V2'', ''V3'', ''V4'', ''V5'', ''V6'', ''V7'', ''V8'', ''V9'', ''V10'',
     ''V11'', ''V12'', ''V13'', ''V14'', ''V15'', ''V16'', ''V17'', ''V18'', ''V19'', ''V20'',
     ''V21'', ''V22'', ''V23'', ''V24'', ''V25'', ''V26'', ''V27'', ''V28'']"
  unfolding V_FEATURES_def by (simp add: upt_rec digit_char_def)

lemma length_V_FEATURES: "length V_FEATURES = 28"
  by (simp add: V_FEATURES_def)

lemma and_then_Inr_iff:
  "and_then r f = Inr b \<longleftrightarrow> (\<exists>a. r = Inr a \<and> f a = Inr b)"
  by (cases r) (simp_all add: and_then_def)

lemma and_then_simps:
  "and_then (Inl e) f = Inl e" "and_then (Inr a) f = f a"
  by (simp_all add: and_then_def)

lemma length_col: "length (col df c) = length (rows df)"
  by (simp add: col_def)

lemma getitem_Inr_iff: "getitem df c = Inr vs \<longleftrightarrow> c \<in> set (columns df) \<and> vs = col df c"
  by (auto simp: getitem_def)

lemma getitem_list_cases:
  "getitem_list df cs =
     (if set cs \<subseteq> set (columns df)
      then Inr \<lparr>columns = cs, rows = map (restrict_row cs) (rows df)\<rparr>
      else Inl (KeyError (filter (\<lambda>c. c \<notin> set (columns df)) cs)))"
proof (cases "filter (\<lambda>c. c \<notin> set (columns df)) cs")
  case Nil
  then show ?thesis by (auto simp: getitem_list_def filter_empty_conv)
next
  case (Cons m ms)
  then have "m \<in> set (filter (\<lambda>c. c \<notin> set (columns df)) cs)" by simp
  then have "m \<in> set cs \<and> m \<notin> set (columns df)" by simp
  with Cons show ?thesis by (auto simp: getitem_list_def)
qed

lemma setitem_extends:
  "length vs = length (rows df) \<Longrightarrow> extends {c} df (setitem df c vs)"
  by (auto simp: extends_def setitem_def)

lemma setitem_val:
  "length vs = length (rows df) \<Longrightarrow> i < length (rows df) \<Longrightarrow>
   val (rows (setitem df c vs) ! i) c = vs ! i"
  by (simp add: setitem_def)

lemma extends_trans:
  "extends C1 a b \<Longrightarrow> extends C2 b c \<Longrightarrow> extends (C1 \<union> C2) a c"
  unfolding extends_def by auto

lemma extends_v_cells:
  "extends C df df' \<Longrightarrow> C \<inter> set V_FEATURES = {} \<Longrightarrow> i < length (rows df) \<Longrightarrow>
   v_cells (rows df' ! i) = v_cells (rows df ! i)"
  unfolding extends_def v_cells_def by auto

lemma normalize_time_cases:
  "normalize_time df =
     (if ''Time'' \<in> set (columns df)
      then Inr (setitem df ''Time'' (map (map_option (\<lambda>t. t / (60 * 60 * 24))) (col df ''Time'')))
      else Inl (KeyError [''Time'']))"
  by (simp add: normalize_time_def getitem_def and_then_simps)

lemma normalize_time_extends: "normalize_time df = Inr df' \<Longrightarrow> extends {''Time''} df df'"
  by (auto simp: normalize_time_cases length_col intro!: setitem_extends split: if_splits)

lemma add_cyclic_time_extends:
  assumes "add_cyclic_time df = Inr df'"
  shows "extends {''Hour_Sin'', ''Hour_Cos''} df df'"
proof -
  from assms obtain a b where
    df': "df' = setitem (setitem df ''Hour_Sin'' a) ''Hour_Cos'' b"
    and la: "length a = length (rows df)" and lb: "length b = length (rows df)"
    by (auto simp: add_cyclic_time_def and_then_Inr_iff getitem_Inr_iff Let_def length_col)
  have 1: "extends {''Hour_Sin''} df (setitem df ''Hour_Sin'' a)"
    using la by (rule setitem_extends)
  have "length b = length (rows (setitem df ''Hour_Sin'' a))"
    using 1 lb by (simp add: extends_def)
  then have 2: "extends {''Hour_Cos''} (setitem df ''Hour_Sin'' a) df'"
    unfolding df' by (rule setitem_extends)
  from extends_trans[OF 1 2] show ?thesis by (simp add: insert_commute)
qed

lemma add_cyclic_time_cases:
  "(\<exists>df'. add_cyclic_time df = Inr df') \<longleftrightarrow> ''Time'' \<in> set (columns df)"
  by (auto simp: add_cyclic_time_def and_then_Inr_iff getitem_Inr_iff Let_def)

lemma add_amount_log_cases:
  "add_amount_log df =
     (if ''Amount'' \<in> set (columns df)
      then Inr (setitem df ''Amount_Log'' (map (\<lambda>c. Option.bind c log1p) (col df ''Amount'')))
      else Inl (KeyError [''Amount'']))"
  by (simp add: add_amount_log_def getitem_def and_then_simps)

lemma add_amount_log_extends: "add_amount_log df = Inr df' \<Longrightarrow> extends {''Amount_Log''} df df'"
  by (auto simp: add_amount_log_cases length_col intro!: setitem_extends split: if_splits)

lemma scale_amount_cases:
  "scale_amount df =
     (if \<not> set V_FEATURES \<subseteq> set (columns df)
      then Inl (KeyError (filter (\<lambda>c. c \<notin> set (columns df)) V_FEATURES))
      else if ''Amount_Log'' \<notin> set (columns df) then Inl (KeyError [''Amount_Log''])
      else Inr (setitem df ''Amount_Scaled''
             (map (standardize (series_mean (col df ''Amount_Log'')) (series_std (col df ''Amount_Log'')))
                (col df ''Amount_Log''))))"
  by (simp add: scale_amount_def getitem_def getitem_list_cases and_then_simps Let_def)

lemma scale_amount_extends: "scale_amount df = Inr df' \<Longrightarrow> extends {''Amount_Scaled''} df df'"
  by (auto simp: scale_amount_cases length_col intro!: setitem_extends split: if_splits)

lemma flag_outliers_cases:
  "flag_outliers ub df =
     (if ''Amount'' \<notin> set (columns df) then Inl (KeyError [''Amount''])
      else case ub of None \<Rightarrow> Inl (NameError ''upper_bound'')
           | Some b \<Rightarrow> Inr (setitem df ''Amount_Outlier'' (map (gt_flag b) (col df ''Amount''))))"
  by (simp add: flag_outliers_def getitem_def and_then_simps)

lemma flag_outliers_extends: "flag_outliers ub df = Inr df' \<Longrightarrow> extends {''Amount_Outlier''} df df'"
  by (auto simp: flag_outliers_cases length_col intro!: setitem_extends split: if_splits option.splits)

lemma row_aggregate_cases:
  "row_aggregate agg name df =
     (if \<not> set V_FEATURES \<subseteq> set (columns df)
      then Inl (KeyError (filter (\<lambda>c. c \<notin> set (columns df)) V_FEATURES))
      else Inr (setitem df name (map (\<lambda>r. agg (v_cells r)) (map (restrict_row V_FEATURES) (rows df)))))"
  by (simp add: row_aggregate_def getitem_list_cases and_then_simps)

lemma v_cells_restrict: "v_cells (restrict_row V_FEATURES r) = v_cells r"
  by (simp add: v_cells_def restrict_row_def)

lemma row_aggregate_extends: "row_aggregate agg name df = Inr df' \<Longrightarrow> extends {name} df df'"
  by (auto simp: row_aggregate_cases intro!: setitem_extends split: if_splits)

lemma row_aggregate_val:
  "row_aggregate agg name df = Inr df' \<Longrightarrow> i < length (rows df) \<Longrightarrow>
   val (rows df' ! i) name = agg (v_cells (rows df ! i))"
  by (auto simp: row_aggregate_cases setitem_val v_cells_restrict split: if_splits)


lemma not_V:
  "''Time'' \<notin> set V_FEATURES" "''Amount'' \<notin> set V_FEATURES"
  "''Hour_Sin'' \<notin> set V_FEATURES" "''Hour_Cos'' \<notin> set V_FEATURES"
  "''Amount_Log'' \<notin> set V_FEATURES" "''Amount_Scaled'' \<notin> set V_FEATURES"
  "''Amount_Outlier'' \<notin> set V_FEATURES" "''V_Sum'' \<notin> set V_FEATURES"
  "''V_Mean'' \<notin> set V_FEATURES" "''V_Std'' \<notin> set V_FEATURES" "''Class'' \<notin> set V_FEATURES"
  by (simp_all add: V_FEATURES_list)

lemma preprocess_data_stages:
  "preprocess_data ub df = Inr out \<longleftrightarrow>
     (\<exists>df1 df2 df3 df4 df5 df6 df7.
        normalize_time df = Inr df1 \<and> add_cyclic_time df1 = Inr df2 \<and>
        add_amount_log df2 = Inr df3 \<and> scale_amount df3 = Inr df4 \<and>
        flag_outliers ub df4 = Inr df5 \<and> row_aggregate series_sum ''V_Sum'' df5 = Inr df6 \<and>
        row_aggregate series_mean ''V_Mean'' df6 = Inr df7 \<and>
        row_aggregate series_std ''V_Std'' df7 = Inr out)"
  by (simp add: preprocess_data_def and_then_Inr_iff)

lemma extends_columns: "extends C df df' \<Longrightarrow> set (columns df') = set (columns df) \<union> C"
  by (simp add: extends_def)

lemma extends_length: "extends C df df' \<Longrightarrow> length (rows df') = length (rows df)"
  by (simp add: extends_def)

lemma extends_val:
  "extends C df df' \<Longrightarrow> i < length (rows df) \<Longrightarrow> k \<notin> C \<Longrightarrow>
   val (rows df' ! i) k = val (rows df ! i) k"
  by (simp add: extends_def)

lemma extends_rid:
  "extends C df df' \<Longrightarrow> i < length (rows df) \<Longrightarrow> rid (rows df' ! i) = rid (rows df ! i)"
  by (simp add: extends_def)


lemma time_stages:
  assumes "''Time'' \<in> set (columns df)"
  obtains df2 where
    "preprocess_data ub df =
       and_then (add_amount_log df2) (\<lambda>df3.
       and_then (scale_amount df3) (\<lambda>df4.
       and_then (flag_outliers ub df4) (\<lambda>df5.
       and_then (row_aggregate series_sum ''V_Sum'' df5) (\<lambda>df6.
       and_then (row_aggregate series_mean ''V_Mean'' df6) (\<lambda>df7.
       row_aggregate series_std ''V_Std'' df7)))))"
    and "extends {''Time'', ''Hour_Sin'', ''Hour_Cos''} df df2"
proof -
  obtain df1 where 1: "normalize_time df = Inr df1"
    using assms by (simp add: normalize_time_cases)
  have e1: "extends {''Time''} df df1" using 1 by (rule normalize_time_extends)
  then have "''Time'' \<in> set (columns df1)" by (simp add: extends_columns)
  then obtain df2 where 2: "add_cyclic_time df1 = Inr df2"
    using add_cyclic_time_cases by blast
  have e2: "extends {''Hour_Sin'', ''Hour_Cos''} df1 df2" using 2 by (rule add_cyclic_time_extends)
  have "extends ({''Time''} \<union> {''Hour_Sin'', ''Hour_Cos''}) df df2"
    using e1 e2 by (rule extends_trans)
  moreover have "{''Time''} \<union> {''Hour_Sin'', ''Hour_Cos''} = {''Time'', ''Hour_Sin'', ''Hour_Cos''}"
    by auto
  ultimately have "extends {''Time'', ''Hour_Sin'', ''Hour_Cos''} df df2" by simp
  moreover have "preprocess_data ub df =
       and_then (add_amount_log df2) (\<lambda>df3.
       and_then (scale_amount df3) (\<lambda>df4.
       and_then (flag_outliers ub df4) (\<lambda>df5.
       and_then (row_aggregate series_sum ''V_Sum'' df5) (\<lambda>df6.
       and_then (row_aggregate series_mean ''V_Mean'' df6) (\<lambda>df7.
       row_aggregate series_std ''V_Std'' df7)))))"
    by (simp add: preprocess_data_def 1 2 and_then_simps)
  ultimately show ?thesis using that by blast
qed


lemma amount_stages:
  assumes "''Time'' \<in> set (columns df)" "''Amount'' \<in> set (columns df)"
  obtains df3 where
    "preprocess_data ub df =
       and_then (scale_amount df3) (\<lambda>df4.
       and_then (flag_outliers ub df4) (\<lambda>df5.
       and_then (row_aggregate series_sum ''V_Sum'' df5) (\<lambda>df6.
       and_then (row_aggregate series_mean ''V_Mean'' df6) (\<lambda>df7.
       row_aggregate series_std ''V_Std'' df7))))"
    and "extends {''Time'', ''Hour_Sin'', ''Hour_Cos'', ''Amount_Log''} df df3"
proof -
  from time_stages[OF assms(1), of ub] obtain df2 where
    p: "preprocess_data ub df =
       and_then (add_amount_log df2) (\<lambda>df3.
       and_then (scale_amount df3) (\<lambda>df4.
       and_then (flag_outliers ub df4) (\<lambda>df5.
       and_then (row_aggregate series_sum ''V_Sum'' df5) (\<lambda>df6.
       and_then (row_aggregate series_mean ''V_Mean'' df6) (\<lambda>df7.
       row_aggregate series_std ''V_Std'' df7)))))"
    and e: "extends {''Time'', ''Hour_Sin'', ''Hour_Cos''} df df2" by blast
  have "''Amount'' \<in> set (columns df2)"
    using assms(2) by (simp add: extends_columns[OF e])
  then obtain df3 where 3: "add_amount_log df2 = Inr df3"
    by (simp add: add_amount_log_cases)
  have "extends ({''Time'', ''Hour_Sin'', ''Hour_Cos''} \<union> {''Amount_Log''}) df df3"
    using e add_amount_log_extends[OF 3] by (rule extends_trans)
  moreover have "{''Time'', ''Hour_Sin'', ''Hour_Cos''} \<union> {''Amount_Log''}
      = {''Time'', ''Hour_Sin'', ''Hour_Cos'', ''Amount_Log''}"
    by auto
  ultimately have "extends {''Time'', ''Hour_Sin'', ''Hour_Cos'', ''Amount_Log''} df df3"
    by simp
  moreover have "preprocess_data ub df =
       and_then (scale_amount df3) (\<lambda>df4.
       and_then (flag_outliers ub df4) (\<lambda>df5.
       and_then (row_aggregate series_sum ''V_Sum'' df5) (\<lambda>df6.
       and_then (row_aggregate series_mean ''V_Mean'' df6) (\<lambda>df7.
       row_aggregate series_std ''V_Std'' df7))))"
    by (simp add: p 3 and_then_simps)
  ultimately show ?thesis using that by blast
qed


lemma preprocess_data_unbound:
  assumes "''Time'' \<in> set (columns df)" "''Amount'' \<in> set (columns df)"
    and "set V_FEATURES \<subseteq> set (columns df)"
  shows "preprocess_data None df = Inl (NameError ''upper_bound'')"
proof -
  from amount_stages[OF assms(1,2), of None] obtain df3 where
    p: "preprocess_data None df =
       and_then (scale_amount df3) (\<lambda>df4.
       and_then (flag_outliers None df4) (\<lambda>df5.
       and_then (row_aggregate series_sum ''V_Sum'' df5) (\<lambda>df6.
       and_then (row_aggregate series_mean ''V_Mean'' df6) (\<lambda>df7.
       row_aggregate series_std ''V_Std'' df7))))"
    and e: "extends {''Time'', ''Hour_Sin'', ''Hour_Cos'', ''Amount_Log''} df df3" by blast
  have c: "set (columns df3) = set (columns df) \<union> {''Time'', ''Hour_Sin'', ''Hour_Cos'', ''Amount_Log''}"
    using e by (rule extends_columns)
  have "set V_FEATURES \<subseteq> set (columns df3)" "''Amount_Log'' \<in> set (columns df3)"
    using assms(3) by (auto simp: c)
  then obtain df4 where 4: "scale_amount df3 = Inr df4"
    by (simp add: scale_amount_cases)
  have "''Amount'' \<in> set (columns df4)"
    using assms(2) by (simp add: extends_columns[OF scale_amount_extends[OF 4]] c)
  then show ?thesis by (simp add: p 4 flag_outliers_cases and_then_simps)
qed

lemma preprocess_data_bound:
  assumes "''Time'' \<in> set (columns df)" "''Amount'' \<in> set (columns df)"
    and "set V_FEATURES \<subseteq> set (columns df)"
  shows "\<exists>out. preprocess_data (Some b) df = Inr out"
proof -
  from amount_stages[OF assms(1,2), of "Some b"] obtain df3 where
    p: "preprocess_data (Some b) df =
       and_then (scale_amount df3) (\<lambda>df4.
       and_then (flag_outliers (Some b) df4) (\<lambda>df5.
       and_then (row_aggregate series_sum ''V_Sum'' df5) (\<lambda>df6.
       and_then (row_aggregate series_mean ''V_Mean'' df6) (\<lambda>df7.
       row_aggregate series_std ''V_Std'' df7))))"
    and e: "extends {''Time'', ''Hour_Sin'', ''Hour_Cos'', ''Amount_Log''} df df3" by blast
  have c3: "set (columns df3) = set (columns df) \<union> {''Time'', ''Hour_Sin'', ''Hour_Cos'', ''Amount_Log''}"
    using e by (rule extends_columns)
  have "set V_FEATURES \<subseteq> set (columns df3)" "''Amount_Log'' \<in> set (columns df3)"
    using assms(3) by (auto simp: c3)
  then obtain df4 where 4: "scale_amount df3 = Inr df4"
    by (simp add: scale_amount_cases)
  note c4 = extends_columns[OF scale_amount_extends[OF 4]]
  have "''Amount'' \<in> set (columns df4)" using assms(2) by (simp add: c4 c3)
  then obtain df5 where 5: "flag_outliers (Some b) df4 = Inr df5"
    by (simp add: flag_outliers_cases)
  note c5 = extends_columns[OF flag_outliers_extends[OF 5]]
  have "set V_FEATURES \<subseteq> set (columns df5)" using assms(3) by (auto simp: c5 c4 c3)
  then obtain df6 where 6: "row_aggregate series_sum ''V_Sum'' df5 = Inr df6"
    by (simp add: row_aggregate_cases)
  note c6 = extends_columns[OF row_aggregate_extends[OF 6]]
  have "set V_FEATURES \<subseteq> set (columns df6)" using assms(3) by (auto simp: c6 c5 c4 c3)
  then obtain df7 where 7: "row_aggregate series_mean ''V_Mean'' df6 = Inr df7"
    by (simp add: row_aggregate_cases)
  note c7 = extends_columns[OF row_aggregate_extends[OF 7]]
  have "set V_FEATURES \<subseteq> set (columns df7)" using assms(3) by (auto simp: c7 c6 c5 c4 c3)
  then obtain out where 8: "row_aggregate series_std ''V_Std'' df7 = Inr out"
    by (simp add: row_aggregate_cases)
  show ?thesis by (simp add: p 4 5 6 7 8 and_then_simps)
qed


lemma columns_read_csv: "columns (read_csv f) = columns f"
  by (simp add: read_csv_def)

lemma sample_raw_columns:
  "''Time'' \<in> set (columns sample_raw)" "''Amount'' \<in> set (columns sample_raw)"
  "set V_FEATURES \<subseteq> set (columns sample_raw)"
  by (auto simp: sample_raw_def raw_columns_def)

text \<open>
  Claim C9. When the cleaned file is missing and the raw file has the time, amount and
  V columns, \<open>load_prepared_data\<close> ends in the \<open>NameError\<close> for \<open>upper_bound\<close>: no
  table is returned and no cleaned file is written. This holds for every such raw file,
  so in particular for some well-formed, non-empty one.
\<close>

theorem fallback_raises_NameError:
  assumes "cleaned_data_file s = None" and "raw_data_file s = Some f"
    and "''Time'' \<in> set (columns f)" and "''Amount'' \<in> set (columns f)"
    and "set V_FEATURES \<subseteq> set (columns f)"
  shows "fst (load_prepared_data s) = Inl (NameError ''upper_bound'')
       \<and> cleaned_data_file (snd (load_prepared_data s)) = None"
proof -
  have "preprocess_data None (read_csv f) = Inl (NameError ''upper_bound'')"
    using assms(3-5) by (intro preprocess_data_unbound) (simp_all add: columns_read_csv)
  then show ?thesis
    using assms(1,2) by (simp add: load_prepared_data_def load_raw_data_def log_error_def Let_def)
qed

text \<open>The claim at a raw file of one row.\<close>

theorem fallback_raises_NameError_witness:
  "cleaned_data_file sample_fs = None \<and> raw_data_file sample_fs = Some sample_raw
   \<and> rows sample_raw \<noteq> []
   \<and> fst (load_prepared_data sample_fs) = Inl (NameError ''upper_bound'')"
  using fallback_raises_NameError[of sample_fs sample_raw] sample_raw_columns
  by (simp add: sample_fs_def sample_raw_def)

lemma preprocess_data_Inr_rows:
  assumes "preprocess_data ub df = Inr out"
  shows "length (rows out) = length (rows df)"
    and "i < length (rows df) \<Longrightarrow> rid (rows out ! i) = rid (rows df ! i)"
    and "i < length (rows df) \<Longrightarrow> k \<notin> derived_columns \<Longrightarrow> val (rows out ! i) k = val (rows df ! i) k"
    and "i < length (rows df) \<Longrightarrow> val (rows out ! i) ''V_Sum'' = series_sum (v_cells (rows df ! i))"
    and "i < length (rows df) \<Longrightarrow> val (rows out ! i) ''V_Mean'' = series_mean (v_cells (rows df ! i))"
    and "i < length (rows df) \<Longrightarrow> val (rows out ! i) ''V_Std'' = series_std (v_cells (rows df ! i))"
    and "set (columns out) = set (columns df) \<union> derived_columns"
proof -
  from assms obtain df1 df2 df3 df4 df5 df6 df7 where
    1: "normalize_time df = Inr df1" and 2: "add_cyclic_time df1 = Inr df2" and
    3: "add_amount_log df2 = Inr df3" and 4: "scale_amount df3 = Inr df4" and
    5: "flag_outliers ub df4 = Inr df5" and 6: "row_aggregate series_sum ''V_Sum'' df5 = Inr df6" and
    7: "row_aggregate series_mean ''V_Mean'' df6 = Inr df7" and
    8: "row_aggregate series_std ''V_Std'' df7 = Inr out"
    unfolding preprocess_data_stages by blast
  note e1 = normalize_time_extends[OF 1] and e2 = add_cyclic_time_extends[OF 2]
    and e3 = add_amount_log_extends[OF 3] and e4 = scale_amount_extends[OF 4]
    and e5 = flag_outliers_extends[OF 5] and e6 = row_aggregate_extends[OF 6]
    and e7 = row_aggregate_extends[OF 7] and e8 = row_aggregate_extends[OF 8]
  note l = extends_length[OF e1] extends_length[OF e2] extends_length[OF e3] extends_length[OF e4]
    extends_length[OF e5] extends_length[OF e6] extends_length[OF e7] extends_length[OF e8]
  have e05: "extends {''Time'', ''Hour_Sin'', ''Hour_Cos'', ''Amount_Log'', ''Amount_Scaled'', ''Amount_Outlier''} df df5"
    using extends_trans[OF extends_trans[OF extends_trans[OF extends_trans[OF e1 e2] e3] e4] e5]
    by (simp add: insert_commute Un_commute)
  have e06: "extends ({''Time'', ''Hour_Sin'', ''Hour_Cos'', ''Amount_Log'', ''Amount_Scaled'', ''Amount_Outlier''} \<union> {''V_Sum''}) df df6"
    using e05 e6 by (rule extends_trans)
  have e07: "extends ({''Time'', ''Hour_Sin'', ''Hour_Cos'', ''Amount_Log'', ''Amount_Scaled'', ''Amount_Outlier''} \<union> {''V_Sum''} \<union> {''V_Mean''}) df df7"
    using e06 e7 by (rule extends_trans)
  have e08: "extends ({''Time'', ''Hour_Sin'', ''Hour_Cos'', ''Amount_Log'', ''Amount_Scaled'', ''Amount_Outlier''} \<union> {''V_Sum''} \<union> {''V_Mean''} \<union> {''V_Std''}) df out"
    using e07 e8 by (rule extends_trans)
  have dc: "{''Time'', ''Hour_Sin'', ''Hour_Cos'', ''Amount_Log'', ''Amount_Scaled'', ''Amount_Outlier''} \<union> {''V_Sum''} \<union> {''V_Mean''} \<union> {''V_Std''} = derived_columns"
    unfolding derived_columns_def by auto
  have e: "extends derived_columns df out" using e08 unfolding dc .
  show "length (rows out) = length (rows df)" using e by (rule extends_length)
  show "set (columns out) = set (columns df) \<union> derived_columns" using e by (rule extends_columns)
  show "rid (rows out ! i) = rid (rows df ! i)" if "i < length (rows df)"
    using e that by (rule extends_rid)
  show "val (rows out ! i) k = val (rows df ! i) k" if "i < length (rows df)" "k \<notin> derived_columns" for k
    using e that by (rule extends_val)
  have v5: "v_cells (rows df5 ! i) = v_cells (rows df ! i)" if "i < length (rows df)"
    using e05 _ that by (rule extends_v_cells) (use not_V in auto)
  have v6: "v_cells (rows df6 ! i) = v_cells (rows df ! i)" if "i < length (rows df)"
    using e06 _ that by (rule extends_v_cells) (use not_V in auto)
  have v7: "v_cells (rows df7 ! i) = v_cells (rows df ! i)" if "i < length (rows df)"
    using e07 _ that by (rule extends_v_cells) (use not_V in auto)
  have l5: "length (rows df5) = length (rows df)" using e05 by (rule extends_length)
  have l6: "length (rows df6) = length (rows df)" using e06 by (rule extends_length)
  have l7: "length (rows df7) = length (rows df)" using e07 by (rule extends_length)
  show "val (rows out ! i) ''V_Std'' = series_std (v_cells (rows df ! i))" if i: "i < length (rows df)"
    using row_aggregate_val[OF 8, of i] i l7 v7 by simp
  show "val (rows out ! i) ''V_Mean'' = series_mean (v_cells (rows df ! i))" if i: "i < length (rows df)"
  proof -
    have "val (rows df7 ! i) ''V_Mean'' = series_mean (v_cells (rows df ! i))"
      using row_aggregate_val[OF 7, of i] i l6 v6 by simp
    moreover have "val (rows out ! i) ''V_Mean'' = val (rows df7 ! i) ''V_Mean''"
      using e8 by (rule extends_val) (use i l7 in auto)
    ultimately show ?thesis by simp
  qed
  show "val (rows out ! i) ''V_Sum'' = series_sum (v_cells (rows df ! i))" if i: "i < length (rows df)"
  proof -
    have "val (rows df6 ! i) ''V_Sum'' = series_sum (v_cells (rows df ! i))"
      using row_aggregate_val[OF 6, of i] i l5 v5 by simp
    moreover have "val (rows df7 ! i) ''V_Sum'' = val (rows df6 ! i) ''V_Sum''"
      using e7 by (rule extends_val) (use i l6 in auto)
    moreover have "val (rows out ! i) ''V_Sum'' = val (rows df7 ! i) ''V_Sum''"
      using e8 by (rule extends_val) (use i l7 in auto)
    ultimately show ?thesis by simp
  qed
qed



lemma length_v_cells: "length (v_cells r) = 28"
  by (simp add: v_cells_def length_V_FEATURES)

lemma notna_Some: "notna (map Some xs) = xs"
  by (induction xs) (simp_all add: notna_def)

lemma series_Some:
  "series_sum (map Some xs) = Some (sum_list xs)"
  "xs \<noteq> [] \<Longrightarrow> series_mean (map Some xs) = Some (sum_list xs / real (length xs))"
  "1 < length xs \<Longrightarrow> series_std (map Some xs) =
     Some (sqrt (sum_list (map (\<lambda>x. (x - sum_list xs / real (length xs))\<^sup>2) xs) / real (length xs - 1)))"
  by (simp_all add: series_sum_def series_mean_def series_std_def notna_Some Let_def)

text \<open>
  Claim C6, as amended. For a row whose 28 V cells are numbers, \<open>V_Sum\<close> is their sum,
  \<open>V_Mean\<close> their sum divided by 28, and \<open>V_Std\<close> the sample standard deviation: the
  root of the sum of squared deviations from the mean divided by 27.
\<close>

theorem v_aggregates:
  assumes "preprocess_data ub df = Inr out" and "i < length (rows df)"
    and "v_cells (rows df ! i) = map Some xs"
  shows "val (rows out ! i) ''V_Sum'' = Some (sum_list xs)
       \<and> val (rows out ! i) ''V_Mean'' = Some (sum_list xs / 28)
       \<and> val (rows out ! i) ''V_Std'' =
           Some (sqrt (sum_list (map (\<lambda>x. (x - sum_list xs / 28)\<^sup>2) xs) / 27))"
proof -
  have len: "length xs = 28"
    using length_v_cells[of "rows df ! i"] assms(3) by simp
  then have "xs \<noteq> []" "1 < length xs" by auto
  then show ?thesis
    using preprocess_data_Inr_rows(4,5,6)[OF assms(1,2)] assms(3) len
    by (simp add: series_Some)
qed

lemma v_cells_sample_row: "v_cells sample_row = map Some (1 # replicate 27 0)"
  by (simp add: v_cells_def V_FEATURES_list sample_row_def numeral_eq_Suc)

lemma sample_sums:
  "sum_list (1 # replicate 27 (0::real)) = 1"
  "sum_list (map (\<lambda>x. (x - 1 / 28)\<^sup>2) (1 # replicate 27 (0::real))) = 27 / 28"
  by (simp_all add: sum_list_replicate power2_eq_square)

lemma sample_std: "series_std (v_cells sample_row) = Some (sqrt (1 / 28))"
  unfolding v_cells_sample_row
  by (subst series_Some(3)) (simp_all add: sum_list_replicate power2_eq_square)

lemma sample_population_std:
  "population_std (notna (v_cells sample_row)) = sqrt (27 / 784)"
  unfolding v_cells_sample_row notna_Some population_std_def
  by (simp add: sum_list_replicate power2_eq_square)

text \<open>
  The row with \<open>V1 = 1\<close> and the other V cells 0: \<open>V_Std\<close> is the root of 1/28, the
  population standard deviation the root of 27/784.
\<close>

theorem v_std_is_not_population_std:
  "\<not> isl (preprocess_data (Some (Some 0)) sample_raw)
   \<and> val (rows (projr (preprocess_data (Some (Some 0)) sample_raw)) ! 0) ''V_Std''
       \<noteq> Some (population_std (notna (v_cells sample_row)))"
proof -
  obtain out where out: "preprocess_data (Some (Some 0)) sample_raw = Inr out"
    using preprocess_data_bound[OF sample_raw_columns] by blast
  have "val (rows out ! 0) ''V_Std'' = series_std (v_cells (rows sample_raw ! 0))"
    using out by (rule preprocess_data_Inr_rows(6)) (simp add: sample_raw_def)
  then have "val (rows out ! 0) ''V_Std'' = Some (sqrt (1 / 28))"
    by (simp add: sample_raw_def sample_std)
  then show ?thesis
    by (simp add: out sample_population_std)
qed

text \<open>Claim C6 at the same row.\<close>

theorem v_aggregates_witness:
  "preprocess_data (Some (Some 0)) sample_raw = Inr (projr (preprocess_data (Some (Some 0)) sample_raw))
   \<and> (0::nat) < length (rows sample_raw)
   \<and> v_cells (rows sample_raw ! 0) = map Some (1 # replicate 27 0)
   \<and> val (rows (projr (preprocess_data (Some (Some 0)) sample_raw)) ! 0) ''V_Sum'' = Some 1
   \<and> val (rows (projr (preprocess_data (Some (Some 0)) sample_raw)) ! 0) ''V_Mean'' = Some (1 / 28)"
proof -
  obtain out where out: "preprocess_data (Some (Some 0)) sample_raw = Inr out"
    using preprocess_data_bound[OF sample_raw_columns] by blast
  have v: "v_cells (rows sample_raw ! 0) = map Some (1 # replicate 27 0)"
    by (simp add: sample_raw_def v_cells_sample_row)
  have l: "0 < length (rows sample_raw)" by (simp add: sample_raw_def)
  from v_aggregates[OF out l v] show ?thesis
    using out v l by (simp add: sum_list_replicate)
qed




section \<open>Feature selection\<close>

lemma columns_setitem:
  "columns (setitem df c vs) = (if c \<in> set (columns df) then columns df else columns df @ [c])"
  by (simp add: setitem_def)

lemma raw_columns_list:
  "raw_columns = [''Time'', ''V1'', ''V2'', ''V3'', ''V4'', ''V5'', ''V6'', ''V7'', ''V8'', ''V9'', ''V10'',
     ''V11'', ''V12'', ''V13'', ''V14'', ''V15'', ''V16'', ''V17'', ''V18'', ''V19'', ''V20'',
     ''V21'', ''V22'', ''V23'', ''V24'', ''V25'', ''V26'', ''V27'', ''V28'', ''Amount'', ''Class'']"
  by (simp add: raw_columns_def V_FEATURES_list)

lemma prepared_columns_of_raw:
  assumes "preprocess_data ub raw = Inr df" and "columns raw = raw_columns"
  shows "columns df = prepared_columns"
proof -
  from assms(1) obtain df1 df2 df3 df4 df5 df6 df7 where
    1: "normalize_time raw = Inr df1" and 2: "add_cyclic_time df1 = Inr df2" and
    3: "add_amount_log df2 = Inr df3" and 4: "scale_amount df3 = Inr df4" and
    5: "flag_outliers ub df4 = Inr df5" and 6: "row_aggregate series_sum ''V_Sum'' df5 = Inr df6" and
    7: "row_aggregate series_mean ''V_Mean'' df6 = Inr df7" and
    8: "row_aggregate series_std ''V_Std'' df7 = Inr df"
    unfolding preprocess_data_stages by blast
  have c1: "columns df1 = raw_columns"
    using 1 assms(2) by (auto simp: normalize_time_cases columns_setitem raw_columns_list split: if_splits)
  have c2: "columns df2 = raw_columns @ [''Hour_Sin'', ''Hour_Cos'']"
    using 2 c1 by (auto simp: add_cyclic_time_def and_then_Inr_iff getitem_Inr_iff Let_def
        columns_setitem raw_columns_list)
  have c3: "columns df3 = raw_columns @ [''Hour_Sin'', ''Hour_Cos'', ''Amount_Log'']"
    using 3 c2 by (auto simp: add_amount_log_cases columns_setitem raw_columns_list split: if_splits)
  have c4: "columns df4 = raw_columns @ [''Hour_Sin'', ''Hour_Cos'', ''Amount_Log'', ''Amount_Scaled'']"
    using 4 c3 by (auto simp: scale_amount_cases columns_setitem raw_columns_list split: if_splits)
  have c5: "columns df5 = raw_columns @ [''Hour_Sin'', ''Hour_Cos'', ''Amount_Log'', ''Amount_Scaled'',
      ''Amount_Outlier'']"
    using 5 c4 by (auto simp: flag_outliers_cases columns_setitem raw_columns_list
        split: if_splits option.splits)
  have c6: "columns df6 = raw_columns @ [''Hour_Sin'', ''Hour_Cos'', ''Amount_Log'', ''Amount_Scaled'',
      ''Amount_Outlier'', ''V_Sum'']"
    using 6 c5 by (auto simp: row_aggregate_cases columns_setitem raw_columns_list split: if_splits)
  have c7: "columns df7 = raw_columns @ [''Hour_Sin'', ''Hour_Cos'', ''Amount_Log'', ''Amount_Scaled'',
      ''Amount_Outlier'', ''V_Sum'', ''V_Mean'']"
    using 7 c6 by (auto simp: row_aggregate_cases columns_setitem raw_columns_list split: if_splits)
  show ?thesis
    using 8 c7 unfolding prepared_columns_def
    by (auto simp: row_aggregate_cases columns_setitem raw_columns_list split: if_splits)
qed


lemma prepared_columns_list:
  "prepared_columns = [''Time'', ''V1'', ''V2'', ''V3'', ''V4'', ''V5'', ''V6'', ''V7'', ''V8'', ''V9'', ''V10'',
     ''V11'', ''V12'', ''V13'', ''V14'', ''V15'', ''V16'', ''V17'', ''V18'', ''V19'', ''V20'',
     ''V21'', ''V22'', ''V23'', ''V24'', ''V25'', ''V26'', ''V27'', ''V28'', ''Amount'', ''Class'',
     ''Hour_Sin'', ''Hour_Cos'', ''Amount_Log'', ''Amount_Scaled'', ''Amount_Outlier'',
     ''V_Sum'', ''V_Mean'', ''V_Std'']"
  by (simp add: prepared_columns_def raw_columns_list)

lemma selected_of_prepared_list:
  "selected_of_prepared = [''V1'', ''V2'', ''V3'', ''V4'', ''V5'', ''V6'', ''V7'', ''V8'', ''V9'', ''V10'',
     ''V11'', ''V12'', ''V13'', ''V14'', ''V15'', ''V16'', ''V17'', ''V18'', ''V19'', ''V20'',
     ''V21'', ''V22'', ''V23'', ''V24'', ''V25'', ''V26'', ''V27'', ''V28'',
     ''Hour_Sin'', ''Hour_Cos'', ''Amount_Scaled'', ''V_Sum'', ''V_Mean'', ''V_Std'']"
  by (simp add: selected_of_prepared_def V_FEATURES_list)

lemma drop_column_columns:
  "drop_column df c = Inr X \<Longrightarrow> columns X = filter (\<lambda>k. k \<noteq> c) (columns df)"
  by (auto simp: drop_column_def Let_def split: if_splits)

lemma preprocess_features_cases:
  assumes "columns Xb = columns Xa"
  shows "preprocess_features Xa Xb =
     (let sel = filter (\<lambda>col. startswith col ''V'' \<or>
                      col \<in> set [''Amount_Scaled'', ''Hour_Sin'', ''Hour_Cos'',
                                  ''V_Sum'', ''V_Mean'', ''V_Std'']) (columns Xa)
      in Inr (\<lparr>columns = sel, rows = map (restrict_row sel) (rows Xa)\<rparr>,
              \<lparr>columns = sel, rows = map (restrict_row sel) (rows Xb)\<rparr>, sel))"
  using assms
  by (simp add: preprocess_features_def getitem_list_cases and_then_simps Let_def)

lemma selected_filter:
  "filter (\<lambda>col. startswith col ''V'' \<or>
                      col \<in> set [''Amount_Scaled'', ''Hour_Sin'', ''Hour_Cos'',
                                  ''V_Sum'', ''V_Mean'', ''V_Std''])
     (filter (\<lambda>k. k \<noteq> ''Class'') prepared_columns) = selected_of_prepared"
  unfolding prepared_columns_list selected_of_prepared_list
  by (simp add: startswith_def)


lemma startswith_V:
  "startswith ''V_Sum'' ''V''" "startswith ''V_Mean'' ''V''" "startswith ''V_Std'' ''V''"
  by (simp_all add: startswith_def)

lemma selected_pred:
  "(startswith c ''V'' \<or> c \<in> set [''Amount_Scaled'', ''Hour_Sin'', ''Hour_Cos'',
                                  ''V_Sum'', ''V_Mean'', ''V_Std''])
   \<longleftrightarrow> (startswith c ''V'' \<or> c \<in> {''Amount_Scaled'', ''Hour_Sin'', ''Hour_Cos''})"
  using startswith_V by auto

text \<open>
  Claim C10. For the table \<open>preprocess_data\<close> makes of a raw file and any two parts
  with its feature columns, \<open>preprocess_features\<close> selects the 28 V columns, then
  \<open>Hour_Sin\<close>, \<open>Hour_Cos\<close>, \<open>Amount_Scaled\<close>, \<open>V_Sum\<close>, \<open>V_Mean\<close> and \<open>V_Std\<close>:
  the columns whose name starts with \<open>V\<close> together with the scaled amount and the two
  hour encodings, 34 in all. The outlier flag, the time, the amount and its logarithm
  are not selected. Both parts are cut down to these columns.
\<close>

theorem selected_features_of_prepared:
  assumes "preprocess_data ub raw = Inr df" and "columns raw = raw_columns"
    and "drop_column df ''Class'' = Inr features"
    and "columns Xtr = columns features" and "columns Xte = columns features"
  shows "preprocess_features Xtr Xte =
           Inr (\<lparr>columns = selected_of_prepared,
                  rows = map (restrict_row selected_of_prepared) (rows Xtr)\<rparr>,
                \<lparr>columns = selected_of_prepared,
                  rows = map (restrict_row selected_of_prepared) (rows Xte)\<rparr>,
                selected_of_prepared)
       \<and> set selected_of_prepared =
           {c \<in> set (columns features).
              startswith c ''V'' \<or> c \<in> {''Amount_Scaled'', ''Hour_Sin'', ''Hour_Cos''}}
       \<and> set selected_of_prepared =
           set V_FEATURES \<union> {''V_Sum'', ''V_Mean'', ''V_Std'', ''Amount_Scaled'', ''Hour_Sin'', ''Hour_Cos''}
       \<and> length selected_of_prepared = 34
       \<and> ''Amount_Outlier'' \<notin> set selected_of_prepared \<and> ''Time'' \<notin> set selected_of_prepared
       \<and> ''Amount'' \<notin> set selected_of_prepared \<and> ''Amount_Log'' \<notin> set selected_of_prepared"
proof -
  have cf: "columns features = filter (\<lambda>k. k \<noteq> ''Class'') prepared_columns"
    using drop_column_columns[OF assms(3)] prepared_columns_of_raw[OF assms(1,2)] by simp
  have sel: "filter (\<lambda>col. startswith col ''V'' \<or>
                      col \<in> set [''Amount_Scaled'', ''Hour_Sin'', ''Hour_Cos'',
                                  ''V_Sum'', ''V_Mean'', ''V_Std'']) (columns features) = selected_of_prepared"
    unfolding cf by (rule selected_filter)
  have pc: "preprocess_features Xtr Xte =
     (let sel = filter (\<lambda>col. startswith col ''V'' \<or>
                      col \<in> set [''Amount_Scaled'', ''Hour_Sin'', ''Hour_Cos'',
                                  ''V_Sum'', ''V_Mean'', ''V_Std'']) (columns Xtr)
      in Inr (\<lparr>columns = sel, rows = map (restrict_row sel) (rows Xtr)\<rparr>,
              \<lparr>columns = sel, rows = map (restrict_row sel) (rows Xte)\<rparr>, sel))"
    by (rule preprocess_features_cases) (simp add: assms(4,5))
  have 1: "preprocess_features Xtr Xte =
           Inr (\<lparr>columns = selected_of_prepared,
                  rows = map (restrict_row selected_of_prepared) (rows Xtr)\<rparr>,
                \<lparr>columns = selected_of_prepared,
                  rows = map (restrict_row selected_of_prepared) (rows Xte)\<rparr>,
                selected_of_prepared)"
    unfolding pc Let_def assms(4) sel ..
  have "set selected_of_prepared = set (filter (\<lambda>col. startswith col ''V'' \<or>
                      col \<in> set [''Amount_Scaled'', ''Hour_Sin'', ''Hour_Cos'',
                                  ''V_Sum'', ''V_Mean'', ''V_Std'']) (columns features))"
    using sel by simp
  then have 2: "set selected_of_prepared =
           {c \<in> set (columns features).
              startswith c ''V'' \<or> c \<in> {''Amount_Scaled'', ''Hour_Sin'', ''Hour_Cos''}}"
    unfolding set_filter selected_pred .
  have 3: "set selected_of_prepared =
           set V_FEATURES \<union> {''V_Sum'', ''V_Mean'', ''V_Std'', ''Amount_Scaled'', ''Hour_Sin'', ''Hour_Cos''}"
    unfolding selected_of_prepared_def by auto
  have 4: "length selected_of_prepared = 34"
    by (simp add: selected_of_prepared_def length_V_FEATURES)
  have 5: "''Amount_Outlier'' \<notin> set selected_of_prepared \<and> ''Time'' \<notin> set selected_of_prepared
       \<and> ''Amount'' \<notin> set selected_of_prepared \<and> ''Amount_Log'' \<notin> set selected_of_prepared"
    by (simp add: selected_of_prepared_list)
  from 1 2 3 4 5 show ?thesis by blast
qed


text \<open>Claim C10 at the one-row raw table, with the whole feature table as both parts.\<close>

theorem selected_features_of_prepared_witness:
  "preprocess_data (Some (Some 0)) sample_raw = Inr (projr (preprocess_data (Some (Some 0)) sample_raw))
   \<and> columns sample_raw = raw_columns
   \<and> \<not> isl (drop_column (projr (preprocess_data (Some (Some 0)) sample_raw)) ''Class'')
   \<and> (case preprocess_features
              (projr (drop_column (projr (preprocess_data (Some (Some 0)) sample_raw)) ''Class''))
              (projr (drop_column (projr (preprocess_data (Some (Some 0)) sample_raw)) ''Class'')) of
         Inl e \<Rightarrow> False
       | Inr (a, b, sel) \<Rightarrow> sel = selected_of_prepared \<and> columns a = sel \<and> columns b = sel
           \<and> ''Amount_Outlier'' \<notin> set sel)"
proof -
  obtain out where out: "preprocess_data (Some (Some 0)) sample_raw = Inr out"
    using preprocess_data_bound[OF sample_raw_columns] by blast
  have c: "columns sample_raw = raw_columns" by (simp add: sample_raw_def)
  have "''Class'' \<in> set (columns out)"
    unfolding prepared_columns_of_raw[OF out c] by (simp add: prepared_columns_list)
  then obtain features where f: "drop_column out ''Class'' = Inr features"
    by (simp add: drop_column_def Let_def)
  from selected_features_of_prepared[OF out c f refl refl]
  have "preprocess_features features features =
           Inr (\<lparr>columns = selected_of_prepared,
                  rows = map (restrict_row selected_of_prepared) (rows features)\<rparr>,
                \<lparr>columns = selected_of_prepared,
                  rows = map (restrict_row selected_of_prepared) (rows features)\<rparr>,
                selected_of_prepared)"
    and "''Amount_Outlier'' \<notin> set selected_of_prepared"
    by blast+
  then show ?thesis
    by (simp add: out c f)
qed

section \<open>Selection of the best model\<close>

lemma argmax_from_spec:
  assumes "best < i" and "ys ! best = bv" and "length ys = i"
    and "\<forall>j<i. ys ! j \<le> bv" and "\<forall>j<best. ys ! j < bv"
  shows "argmax_from xs i best bv < length (ys @ xs)
       \<and> (\<forall>j<length (ys @ xs). (ys @ xs) ! j \<le> (ys @ xs) ! argmax_from xs i best bv)
       \<and> (\<forall>j<argmax_from xs i best bv. (ys @ xs) ! j < (ys @ xs) ! argmax_from xs i best bv)"
  using assms
proof (induction xs arbitrary: i best bv ys)
  case Nil
  then show ?case by (auto simp: nth_append)
next
  case (Cons x xs)
  show ?case
  proof (cases "bv < x")
    case True
    have "argmax_from xs (Suc i) i x < length ((ys @ [x]) @ xs)
       \<and> (\<forall>j<length ((ys @ [x]) @ xs). ((ys @ [x]) @ xs) ! j \<le> ((ys @ [x]) @ xs) ! argmax_from xs (Suc i) i x)
       \<and> (\<forall>j<argmax_from xs (Suc i) i x. ((ys @ [x]) @ xs) ! j < ((ys @ [x]) @ xs) ! argmax_from xs (Suc i) i x)"
    proof (rule Cons.IH)
      show "i < Suc i" by simp
      show "(ys @ [x]) ! i = x" using Cons.prems(3) by (simp add: nth_append)
      show "length (ys @ [x]) = Suc i" using Cons.prems(3) by simp
      show "\<forall>j<Suc i. (ys @ [x]) ! j \<le> x"
        using Cons.prems(3,4) True by (auto simp: nth_append less_Suc_eq)
      show "\<forall>j<i. (ys @ [x]) ! j < x"
        using Cons.prems(3,4) True by (auto simp: nth_append)
    qed
    then show ?thesis using True by simp
  next
    case False
    have "argmax_from xs (Suc i) best bv < length ((ys @ [x]) @ xs)
       \<and> (\<forall>j<length ((ys @ [x]) @ xs). ((ys @ [x]) @ xs) ! j \<le> ((ys @ [x]) @ xs) ! argmax_from xs (Suc i) best bv)
       \<and> (\<forall>j<argmax_from xs (Suc i) best bv. ((ys @ [x]) @ xs) ! j < ((ys @ [x]) @ xs) ! argmax_from xs (Suc i) best bv)"
    proof (rule Cons.IH)
      show "best < Suc i" using Cons.prems(1) by simp
      show "(ys @ [x]) ! best = bv" using Cons.prems(1,2,3) by (simp add: nth_append)
      show "length (ys @ [x]) = Suc i" using Cons.prems(3) by simp
      show "\<forall>j<Suc i. (ys @ [x]) ! j \<le> bv"
        using Cons.prems(3,4) False by (auto simp: nth_append less_Suc_eq)
      show "\<forall>j<best. (ys @ [x]) ! j < bv"
        using Cons.prems(1,3,5) by (auto simp: nth_append)
    qed
    then show ?thesis using False by simp
  qed
qed

lemma idxmax_spec:
  assumes "idxmax xs = Inr k"
  shows "k < length xs" and "\<forall>j<length xs. xs ! j \<le> xs ! k" and "\<forall>j<k. xs ! j < xs ! k"
proof -
  from assms obtain x rest where xs: "xs = x # rest" and k: "k = argmax_from rest 1 0 x"
    by (auto simp: idxmax_def split: list.splits)
  have "argmax_from rest 1 0 x < length ([x] @ rest)
       \<and> (\<forall>j<length ([x] @ rest). ([x] @ rest) ! j \<le> ([x] @ rest) ! argmax_from rest 1 0 x)
       \<and> (\<forall>j<argmax_from rest 1 0 x. ([x] @ rest) ! j < ([x] @ rest) ! argmax_from rest 1 0 x)"
    by (rule argmax_from_spec) auto
  then show "k < length xs" and "\<forall>j<length xs. xs ! j \<le> xs ! k" and "\<forall>j<k. xs ! j < xs ! k"
    unfolding xs k by simp_all
qed

lemma idxmax_nonempty: "xs \<noteq> [] \<Longrightarrow> \<exists>k. idxmax xs = Inr k"
  by (cases xs) (simp_all add: idxmax_def)


lemma update_fresh: "k \<notin> fst ` set al \<Longrightarrow> AList.update k v al = al @ [(k, v)]"
  by (induction al) auto

lemma evaluate_loop_Cons:
  "evaluate_loop sk ((n, m) # ms) X y acc =
     and_then (evaluate_one sk X y m) (\<lambda>r. evaluate_loop sk ms X y (AList.update n r acc))"
  by (auto simp: evaluate_one_def and_then_def split: sum.splits prod.splits)

lemma evaluate_loop_results:
  assumes "evaluate_loop sk models X y acc = Inr res"
    and "distinct (map fst models)" and "fst ` set models \<inter> fst ` set acc = {}"
  shows "\<exists>rs. length rs = length models \<and> res = acc @ zip (map fst models) rs
           \<and> (\<forall>i<length models. evaluate_one sk X y (snd (models ! i)) = Inr (rs ! i))"
  using assms
proof (induction models arbitrary: acc)
  case Nil
  then show ?case by simp
next
  case (Cons nm ms)
  obtain n m where nm: "nm = (n, m)" by (cases nm)
  from Cons.prems(1) obtain r where r: "evaluate_one sk X y m = Inr r"
    and rest: "evaluate_loop sk ms X y (AList.update n r acc) = Inr res"
    unfolding nm evaluate_loop_Cons and_then_Inr_iff by blast
  have fresh: "n \<notin> fst ` set acc" using Cons.prems(3) nm by auto
  have upd: "AList.update n r acc = acc @ [(n, r)]" using fresh by (rule update_fresh)
  have "\<exists>rs. length rs = length ms \<and> res = (acc @ [(n, r)]) @ zip (map fst ms) rs
           \<and> (\<forall>i<length ms. evaluate_one sk X y (snd (ms ! i)) = Inr (rs ! i))"
  proof (rule Cons.IH)
    show "evaluate_loop sk ms X y (acc @ [(n, r)]) = Inr res" using rest upd by simp
    show "distinct (map fst ms)" using Cons.prems(2) by simp
    show "fst ` set ms \<inter> fst ` set (acc @ [(n, r)]) = {}"
      using Cons.prems(2,3) nm by auto
  qed
  then obtain rs where rs: "length rs = length ms" "res = (acc @ [(n, r)]) @ zip (map fst ms) rs"
    "\<forall>i<length ms. evaluate_one sk X y (snd (ms ! i)) = Inr (rs ! i)" by blast
  have "length (r # rs) = length (nm # ms)" using rs(1) by simp
  moreover have "res = acc @ zip (map fst (nm # ms)) (r # rs)" using rs(2) nm by simp
  moreover have "\<forall>i<length (nm # ms). evaluate_one sk X y (snd ((nm # ms) ! i)) = Inr ((r # rs) ! i)"
    using rs(3) r nm by (auto simp: nth_Cons split: nat.splits)
  ultimately show ?case by blast
qed


lemma lookup_nth:
  "distinct (map fst d) \<Longrightarrow> k < length d \<Longrightarrow> lookup d (fst (d ! k)) key = Inr (snd (d ! k))"
proof -
  assume d: "distinct (map fst d)" and k: "k < length d"
  have "(fst (d ! k), snd (d ! k)) \<in> set d" using k by simp
  then have "map_of d (fst (d ! k)) = Some (snd (d ! k))"
    using d by simp
  then show ?thesis by (simp add: lookup_def)
qed

lemma evaluate_models_selects:
  assumes loop: "evaluate_loop sk models X y [] = Inr res"
    and ne: "models \<noteq> []" and dist: "distinct (map fst models)"
  shows "\<exists>k. k < length models
      \<and> evaluate_models sk now models X y s =
          (Inr (fst (models ! k), res),
           s\<lparr>model_comparison_csv := Some (map (\<lambda>(n, r). (n, scores_of r)) res),
             model_file := Some (snd (models ! k)),
             model_info_csv := Some \<lparr>model_name = fst (models ! k), training_date = strftime now,
               metrics = scores_of (snd (res ! k)), feature_count = length (columns X)\<rparr>\<rparr>)
      \<and> map fst res = map fst models
      \<and> (\<forall>j<length models. auc (snd (res ! j)) \<le> auc (snd (res ! k)))
      \<and> (\<forall>j<k. auc (snd (res ! j)) < auc (snd (res ! k)))"
proof -
  from evaluate_loop_results[OF loop dist] obtain rs where
    len: "length rs = length models" and res: "res = zip (map fst models) rs"
    by auto
  have lres: "length res = length models" using len res by simp
  have keys: "map fst res = map fst models" using len res by simp
  let ?aucs = "map (\<lambda>(n, r). auc r) res"
  have "?aucs \<noteq> []" using lres ne by auto
  then obtain k where k: "idxmax ?aucs = Inr k" using idxmax_nonempty by blast
  note spec = idxmax_spec[OF k]
  have kl: "k < length models" using spec(1) lres by simp
  have nth_auc: "?aucs ! j = auc (snd (res ! j))" if "j < length models" for j
    using that lres by (simp add: case_prod_beta)
  have fk: "fst (res ! k) = fst (models ! k)"
    using keys kl lres by (metis nth_map)
  have l1: "lookup models (fst (models ! k)) (fst (models ! k)) = Inr (snd (models ! k))"
    using dist kl by (rule lookup_nth)
  have l2: "lookup res (fst (models ! k)) (fst (models ! k)) = Inr (snd (res ! k))"
    using lookup_nth[of res k] keys dist kl lres fk by simp
  have run: "evaluate_models sk now models X y s =
          (Inr (fst (models ! k), res),
           s\<lparr>model_comparison_csv := Some (map (\<lambda>(n, r). (n, scores_of r)) res),
             model_file := Some (snd (models ! k)),
             model_info_csv := Some \<lparr>model_name = fst (models ! k), training_date = strftime now,
               metrics = scores_of (snd (res ! k)), feature_count = length (columns X)\<rparr>\<rparr>)"
    by (simp add: evaluate_models_def loop k fk l1 l2 and_then_simps Let_def case_prod_beta)
  have le: "\<forall>j<length models. auc (snd (res ! j)) \<le> auc (snd (res ! k))"
    using spec(2) nth_auc kl lres by auto
  have lt: "\<forall>j<k. auc (snd (res ! j)) < auc (snd (res ! k))"
    using spec(3) nth_auc kl by auto
  from kl run keys le lt show ?thesis by blast
qed












text \<open>
  Claim C2. When every model of a non-empty dictionary is scored, \<open>evaluate_models\<close>
  returns and saves as the best model one whose AUC no other model exceeds, and every
  model before it in the order of the dictionary has a strictly smaller AUC: the
  first of the models with the highest AUC. The results keep the order of the
  dictionary, which for the output of \<open>train_models\<close> is linear, bagged, boosted.
\<close>

theorem best_model_is_first_maximum:
  assumes "evaluate_loop sk models X y [] = Inr res"
    and "models \<noteq> []" and "distinct (map fst models)"
  shows "\<exists>k<length models.
      fst (evaluate_models sk now models X y s) = Inr (fst (models ! k), res)
    \<and> model_file (snd (evaluate_models sk now models X y s)) = Some (snd (models ! k))
    \<and> map fst res = map fst models
    \<and> (\<forall>j<length models. auc (snd (res ! j)) \<le> auc (snd (res ! k)))
    \<and> (\<forall>j<k. auc (snd (res ! j)) < auc (snd (res ! k)))"
proof -
  from evaluate_models_selects[OF assms, of now s] obtain k where k: "k < length models"
    and run: "evaluate_models sk now models X y s =
          (Inr (fst (models ! k), res),
           s\<lparr>model_comparison_csv := Some (map (\<lambda>(n, r). (n, scores_of r)) res),
             model_file := Some (snd (models ! k)),
             model_info_csv := Some \<lparr>model_name = fst (models ! k), training_date = strftime now,
               metrics = scores_of (snd (res ! k)), feature_count = length (columns X)\<rparr>\<rparr>)"
    and rest: "map fst res = map fst models"
      "\<forall>j<length models. auc (snd (res ! j)) \<le> auc (snd (res ! k))"
      "\<forall>j<k. auc (snd (res ! j)) < auc (snd (res ! k))"
    by blast
  show ?thesis
    by (rule exI[of _ k]) (simp add: k run rest)
qed


lemma sample_evaluate_one:
  "evaluate_one sample_sklearn X y m =
     Inr \<lparr>auc = m, precision = 0, recall = 0, f1 = 0, confusion_matrix = []\<rparr>"
  by (simp add: evaluate_one_def sample_sklearn_def and_then_simps)

lemma tied_loop:
  "evaluate_loop sample_sklearn tied_models no_table [] [] =
     Inr [(''logistic_regression'', \<lparr>auc = 0.95, precision = 0, recall = 0, f1 = 0, confusion_matrix = []\<rparr>),
          (''random_forest'', \<lparr>auc = 0.95, precision = 0, recall = 0, f1 = 0, confusion_matrix = []\<rparr>),
          (''gradient_boosting'', \<lparr>auc = 0.90, precision = 0, recall = 0, f1 = 0, confusion_matrix = []\<rparr>)]"
  by (simp add: tied_models_def evaluate_loop_Cons sample_evaluate_one and_then_simps
      del: evaluate_loop.simps(2))

text \<open>The tie of the specification: AUC 0.95, 0.95, 0.90 selects the linear model.\<close>

theorem best_model_is_first_maximum_witness:
  "tied_models \<noteq> [] \<and> distinct (map fst tied_models)
   \<and> \<not> isl (evaluate_loop sample_sklearn tied_models no_table [] [])
   \<and> fst (evaluate_models sample_sklearn sample_now tied_models no_table [] no_files)
       = Inr (''logistic_regression'', projr (evaluate_loop sample_sklearn tied_models no_table [] []))"
proof -
  have ne: "tied_models \<noteq> []" and d: "distinct (map fst tied_models)"
    by (simp_all add: tied_models_def)
  from best_model_is_first_maximum[OF tied_loop ne d, of sample_now no_files]
  obtain k where k: "k < length tied_models"
    and run: "fst (evaluate_models sample_sklearn sample_now tied_models no_table [] no_files)
       = Inr (fst (tied_models ! k), projr (evaluate_loop sample_sklearn tied_models no_table [] []))"
    and lt: "\<forall>j<k. auc (snd (projr (evaluate_loop sample_sklearn tied_models no_table [] []) ! j))
        < auc (snd (projr (evaluate_loop sample_sklearn tied_models no_table [] []) ! k))"
    and le: "\<forall>j<length tied_models. auc (snd (projr (evaluate_loop sample_sklearn tied_models no_table [] []) ! j))
        \<le> auc (snd (projr (evaluate_loop sample_sklearn tied_models no_table [] []) ! k))"
    unfolding tied_loop by auto
  have "k = 0 \<or> k = 1 \<or> k = 2" using k by (auto simp: tied_models_def)
  then have "k = 0"
  proof (elim disjE)
    assume "k = 1"
    with lt[rule_format, of 0] show ?thesis by (simp add: tied_loop)
  next
    assume "k = 2"
    moreover have "(0::nat) < length tied_models" by (simp add: tied_models_def)
    ultimately show ?thesis using le[rule_format, of 0] by (simp add: tied_loop)
  qed
  moreover have "fst (tied_models ! 0) = ''logistic_regression''" by (simp add: tied_models_def)
  ultimately show ?thesis using run ne d by (simp add: tied_loop)
qed








section \<open>Training\<close>





section \<open>Random choices\<close>

lemma mset_remove_nth:
  "k < length xs \<Longrightarrow> add_mset (xs ! k) (mset (take k xs @ drop (Suc k) xs)) = mset xs"
  by (metis add_mset_add_single id_take_nth_drop mset.simps(2) mset_append union_mset_add_mset_right
      union_mset_add_mset_left append_Cons append_Nil)

lemma mset_permutation: "mset (fst (permutation xs g)) = mset xs"
proof (induction xs g rule: permutation.induct)
  case (1 xs g)
  show ?case
  proof (cases "xs = []")
    case True
    then show ?thesis by (subst permutation.simps) simp
  next
    case False
    obtain d g1 where d: "draw g = (d, g1)" by (cases "draw g")
    let ?k = "d mod length xs"
    obtain ys g2 where r: "permutation (take ?k xs @ drop (Suc ?k) xs) g1 = (ys, g2)"
      by (cases "permutation (take ?k xs @ drop (Suc ?k) xs) g1")
    have k: "?k < length xs" using False by simp
    have "mset ys = mset (take ?k xs @ drop (Suc ?k) xs)"
      using "1.IH"[OF False d[symmetric] refl] r by simp
    moreover have "fst (permutation xs g) = xs ! ?k # ys"
      using False d r by (subst permutation.simps) simp
    ultimately show ?thesis using mset_remove_nth[OF k] by simp
  qed
qed

lemma set_permutation: "set (fst (permutation xs g)) = set xs"
  by (metis mset_permutation set_mset_mset)

lemma length_permutation: "length (fst (permutation xs g)) = length xs"
  by (metis mset_permutation size_mset)

lemma distinct_permutation: "distinct (fst (permutation xs g)) = distinct xs"
  by (metis mset_permutation mset_eq_imp_distinct_iff)


section \<open>The allocation of classes to the two parts\<close>

lemma sum_list_bump:
  "finite S \<Longrightarrow>
   sum_list (map (\<lambda>(i, f). if i \<in> S then f + 1 else f) (enumerate n fl))
     = sum_list fl + card (S \<inter> {n..<n + length fl})"
proof (induction fl arbitrary: n)
  case Nil
  then show ?case by simp
next
  case (Cons f fl)
  have split: "S \<inter> {n..<n + length (f # fl)} = (S \<inter> {n}) \<union> (S \<inter> {Suc n..<Suc n + length fl})"
    by auto
  have "card (S \<inter> {n..<n + length (f # fl)}) = card (S \<inter> {n}) + card (S \<inter> {Suc n..<Suc n + length fl})"
    unfolding split by (rule card_Un_disjoint) (use Cons.prems in auto)
  moreover have "card (S \<inter> {n}) = (if n \<in> S then 1 else 0)" by simp
  ultimately show ?case using Cons.IH[OF Cons.prems, of "Suc n"] by simp
qed

lemma nth_bump:
  "i < length fl \<Longrightarrow>
   map (\<lambda>(i, f). if i \<in> S then f + 1 else f) (enumerate 0 fl) ! i
     = (if i \<in> S then fl ! i + 1 else fl ! i)"
  by (simp add: nth_enumerate_eq)

lemma add_now_step_spec:
  assumes "length remainder = length floored"
    and "add_now_step v remainder floored need g = (floored1, need1, g1)"
  shows "length floored1 = length floored"
    and "need1 = need - min (length (filter (\<lambda>i. remainder ! i = v) [0..<length remainder])) need"
    and "sum_list floored1 = sum_list floored
           + min (length (filter (\<lambda>i. remainder ! i = v) [0..<length remainder])) need"
    and "\<forall>i<length floored. floored1 ! i = floored ! i
           \<or> (floored1 ! i = floored ! i + 1 \<and> remainder ! i = v)"
proof -
  let ?inds = "filter (\<lambda>i. remainder ! i = v) [0..<length remainder]"
  let ?add = "min (length ?inds) need"
  let ?chosen = "take ?add (fst (permutation ?inds g))"
  have f1: "floored1 = map (\<lambda>(i, f). if i \<in> set ?chosen then f + 1 else f) (enumerate 0 floored)"
    and n1: "need1 = need - ?add"
    using assms(2) by (simp_all add: add_now_step_def Let_def split_beta)
  show "length floored1 = length floored" by (simp add: f1)
  show "need1 = need - ?add" by (rule n1)
  have dist: "distinct ?chosen"
    by (intro distinct_take) (simp add: distinct_permutation)
  have sub: "set ?chosen \<subseteq> set ?inds"
    using set_take_subset[of ?add "fst (permutation ?inds g)"] by (simp add: set_permutation)
  have len: "length ?chosen = ?add"
    by (simp add: length_permutation)
  have "set ?chosen \<inter> {0..<0 + length floored} = set ?chosen"
    using sub assms(1) by auto
  then have "card (set ?chosen \<inter> {0..<0 + length floored}) = ?add"
    using dist len by (simp add: distinct_card)
  then show "sum_list floored1 = sum_list floored + ?add"
    unfolding f1 by (subst sum_list_bump) simp_all
  show "\<forall>i<length floored. floored1 ! i = floored ! i
           \<or> (floored1 ! i = floored ! i + 1 \<and> remainder ! i = v)"
  proof (intro allI impI)
    fix i assume i: "i < length floored"
    have nb: "floored1 ! i = (if i \<in> set ?chosen then floored ! i + 1 else floored ! i)"
      unfolding f1 using i by (rule nth_bump)
    show "floored1 ! i = floored ! i \<or> (floored1 ! i = floored ! i + 1 \<and> remainder ! i = v)"
    proof (cases "i \<in> set ?chosen")
      case True
      then have "remainder ! i = v" using sub by auto
      then show ?thesis using True nb by simp
    next
      case False
      then show ?thesis using nb by simp
    qed
  qed
qed


lemma length_filter_disj:
  "(\<And>x. \<not> (P x \<and> Q x)) \<Longrightarrow>
   length (filter (\<lambda>x. P x \<or> Q x) xs) = length (filter P xs) + length (filter Q xs)"
  by (induction xs) auto

lemma add_to_classes_spec:
  assumes "length remainder = length floored" and "distinct values"
    and "need \<le> length (filter (\<lambda>i. remainder ! i \<in> set values) [0..<length remainder])"
  shows "length (fst (add_to_classes values remainder floored need g)) = length floored
       \<and> sum_list (fst (add_to_classes values remainder floored need g)) = sum_list floored + need
       \<and> (\<forall>i<length floored.
             fst (add_to_classes values remainder floored need g) ! i = floored ! i
           \<or> (fst (add_to_classes values remainder floored need g) ! i = floored ! i + 1
               \<and> remainder ! i \<in> set values))"
  using assms
proof (induction "values" arbitrary: floored need g)
  case Nil
  then show ?case by simp
next
  case (Cons v vs)
  obtain floored1 need1 g1 where step: "add_now_step v remainder floored need g = (floored1, need1, g1)"
    by (cases "add_now_step v remainder floored need g") auto
  note sp = add_now_step_spec[OF Cons.prems(1) step]
  let ?nv = "length (filter (\<lambda>i. remainder ! i = v) [0..<length remainder])"
  have cnt: "length (filter (\<lambda>i. remainder ! i \<in> set (v # vs)) [0..<length remainder])
      = ?nv + length (filter (\<lambda>i. remainder ! i \<in> set vs) [0..<length remainder])"
    using length_filter_disj[of "\<lambda>i. remainder ! i = v" "\<lambda>i. remainder ! i \<in> set vs" "[0..<length remainder]"]
      Cons.prems(2) by auto
  show ?case
  proof (cases "need1 = 0")
    case True
    then have "min ?nv need = need" using sp(2) by auto
    then show ?thesis using True step sp by auto
  next
    case False
    then have add: "min ?nv need = ?nv" using sp(2) by auto
    have rec: "add_to_classes (v # vs) remainder floored need g
        = add_to_classes vs remainder floored1 need1 g1"
      using False step by simp
    have IH: "length (fst (add_to_classes vs remainder floored1 need1 g1)) = length floored1
       \<and> sum_list (fst (add_to_classes vs remainder floored1 need1 g1)) = sum_list floored1 + need1
       \<and> (\<forall>i<length floored1.
             fst (add_to_classes vs remainder floored1 need1 g1) ! i = floored1 ! i
           \<or> (fst (add_to_classes vs remainder floored1 need1 g1) ! i = floored1 ! i + 1
               \<and> remainder ! i \<in> set vs))"
    proof (rule Cons.IH)
      show "length remainder = length floored1" using sp(1) Cons.prems(1) by simp
      show "distinct vs" using Cons.prems(2) by simp
      show "need1 \<le> length (filter (\<lambda>i. remainder ! i \<in> set vs) [0..<length remainder])"
        using Cons.prems(3) cnt sp(2) add by simp
    qed
    have "need1 + ?nv = need" using sp(2) add by auto
    then have sum: "sum_list floored1 + need1 = sum_list floored + need"
      using sp(3) add by simp
    have pt: "fst (add_to_classes vs remainder floored1 need1 g1) ! i = floored ! i
           \<or> (fst (add_to_classes vs remainder floored1 need1 g1) ! i = floored ! i + 1
               \<and> remainder ! i \<in> set (v # vs))" if i: "i < length floored" for i
    proof -
      from IH i sp(1) have a: "fst (add_to_classes vs remainder floored1 need1 g1) ! i = floored1 ! i
           \<or> (fst (add_to_classes vs remainder floored1 need1 g1) ! i = floored1 ! i + 1
               \<and> remainder ! i \<in> set vs)" by simp
      from sp(4) i have b: "floored1 ! i = floored ! i
           \<or> (floored1 ! i = floored ! i + 1 \<and> remainder ! i = v)" by simp
      from a b Cons.prems(2) show ?thesis by auto
    qed
    show ?thesis unfolding rec using IH sp(1) sum pt by simp
  qed
qed


lemma sum_list_scaled: "sum_list (map (\<lambda>c. real c * k) cs) = real (sum_list cs) * k"
  by (induction cs) (simp_all add: distrib_right)

lemma cancel_total: "0 < (t::nat) \<Longrightarrow> real t * (real d / real t) = real d"
  by simp

lemma sum_list_shares:
  assumes "0 < sum_list cs"
  shows "sum_list (map (\<lambda>c. real c / real (sum_list cs) * real d) cs) = real d"
proof -
  have "(\<lambda>c. real c / real (sum_list cs) * real d) = (\<lambda>c. real c * (real d / real (sum_list cs)))"
    by (rule ext) simp
  then have "sum_list (map (\<lambda>c. real c / real (sum_list cs) * real d) cs)
      = real (sum_list cs) * (real d / real (sum_list cs))"
    by (simp only: sum_list_scaled)
  also have "real (sum_list cs) * (real d / real (sum_list cs)) = real d"
    using assms by (rule cancel_total)
  finally show ?thesis .
qed

lemma sum_list_floor_le:
  "(\<And>x. x \<in> set xs \<Longrightarrow> 0 \<le> x) \<Longrightarrow>
   real (sum_list (map (\<lambda>x. nat (floor x)) xs)) \<le> sum_list xs
   \<and> sum_list xs \<le> real (sum_list (map (\<lambda>x. nat (floor x)) xs)) + real (length xs)"
proof (induction xs)
  case Nil
  then show ?case by simp
next
  case (Cons x xs)
  have "0 \<le> x" using Cons.prems by simp
  then have a: "real (nat (floor x)) \<le> x" "x \<le> real (nat (floor x)) + 1"
    by linarith+
  have IH: "real (sum_list (map (\<lambda>x. nat (floor x)) xs)) \<le> sum_list xs
   \<and> sum_list xs \<le> real (sum_list (map (\<lambda>x. nat (floor x)) xs)) + real (length xs)"
    using Cons.IH Cons.prems by simp
  show ?case
    using a IH by (simp only: list.map sum_list.Cons of_nat_add length_Cons of_nat_Suc) linarith
qed

lemma approximate_mode_spec:
  assumes pos: "0 < sum_list cs"
  shows "length (fst (approximate_mode cs d g)) = length cs"
    and "sum_list (fst (approximate_mode cs d g)) = d"
    and "\<forall>i<length cs. \<bar>real (fst (approximate_mode cs d g) ! i)
            - real (cs ! i) / real (sum_list cs) * real d\<bar> \<le> 1"
    and "\<forall>i<length cs. fst (approximate_mode cs d g) ! i
            \<le> nat (floor (real (cs ! i) / real (sum_list cs) * real d)) + 1"
    and "0 < d - sum_list (map (\<lambda>c. nat (floor (real c / real (sum_list cs) * real d))) cs)
         \<or> fst (approximate_mode cs d g) = map (\<lambda>c. nat (floor (real c / real (sum_list cs) * real d))) cs"
proof -
  define cont where "cont = map (\<lambda>c. real c / real (sum_list cs) * real d) cs"
  define fl where "fl = map (\<lambda>x. nat (floor x)) cont"
  define need where "need = d - sum_list fl"
  define rem where "rem = map (\<lambda>x. x - real (nat (floor x))) cont"
  define vals where "vals = rev (sort (remdups rem))"
  have am: "approximate_mode cs d g =
      (if 0 < need then add_to_classes vals rem fl need g else (fl, g))"
    by (simp add: approximate_mode_def Let_def cont_def fl_def need_def rem_def vals_def)
  have lens: "length cont = length cs" "length fl = length cs" "length rem = length cs"
    by (simp_all add: cont_def fl_def rem_def)
  have nonneg: "0 \<le> x" if "x \<in> set cont" for x
    using that by (auto simp: cont_def)
  have total: "sum_list cont = real d"
    unfolding cont_def using pos by (rule sum_list_shares)
  have bounds: "real (sum_list fl) \<le> real d" "real d \<le> real (sum_list fl) + real (length cs)"
    using sum_list_floor_le[of cont, OF nonneg] total lens by (simp_all add: fl_def)
  have le: "sum_list fl \<le> d" using bounds(1) by simp
  have need_le: "need \<le> length cs" unfolding need_def using bounds(2) by linarith
  have nthfl: "fl ! i = nat (floor (real (cs ! i) / real (sum_list cs) * real d))" if "i < length cs" for i
    using that by (simp add: fl_def cont_def)
  have fl_eq: "fl = map (\<lambda>c. nat (floor (real c / real (sum_list cs) * real d))) cs"
    by (simp add: fl_def cont_def)
  have close: "\<bar>real (fl ! i) - real (cs ! i) / real (sum_list cs) * real d\<bar> \<le> 1
      \<and> \<bar>real (fl ! i + 1) - real (cs ! i) / real (sum_list cs) * real d\<bar> \<le> 1" if i: "i < length cs" for i
  proof -
    have "0 \<le> real (cs ! i) / real (sum_list cs) * real d" by simp
    then show ?thesis unfolding nthfl[OF i] by linarith
  qed
  have main: "length (fst (approximate_mode cs d g)) = length cs
      \<and> sum_list (fst (approximate_mode cs d g)) = d
      \<and> (\<forall>i<length cs. fst (approximate_mode cs d g) ! i = fl ! i
             \<or> fst (approximate_mode cs d g) ! i = fl ! i + 1)
      \<and> (0 < need \<or> fst (approximate_mode cs d g) = fl)"
  proof (cases "0 < need")
    case False
    then show ?thesis using le lens by (simp add: am need_def)
  next
    case True
    have "filter (\<lambda>i. rem ! i \<in> set vals) [0..<length rem] = [0..<length rem]"
      by (rule filter_True) (simp add: vals_def)
    then have c: "need \<le> length (filter (\<lambda>i. rem ! i \<in> set vals) [0..<length rem])"
      using need_le lens by simp
    have l: "length rem = length fl" using lens by simp
    have dv: "distinct vals" by (simp add: vals_def)
    from add_to_classes_spec[OF l dv c, of g]
    show ?thesis using True le lens by (auto simp: am need_def)
  qed
  show "length (fst (approximate_mode cs d g)) = length cs"
    using main by simp
  show "sum_list (fst (approximate_mode cs d g)) = d"
    using main by simp
  show "\<forall>i<length cs. \<bar>real (fst (approximate_mode cs d g) ! i)
            - real (cs ! i) / real (sum_list cs) * real d\<bar> \<le> 1"
    using main close by metis
  show "\<forall>i<length cs. fst (approximate_mode cs d g) ! i
            \<le> nat (floor (real (cs ! i) / real (sum_list cs) * real d)) + 1"
    using main nthfl by (metis le_add1 order_refl)
  show "0 < d - sum_list (map (\<lambda>c. nat (floor (real c / real (sum_list cs) * real d))) cs)
         \<or> fst (approximate_mode cs d g) = map (\<lambda>c. nat (floor (real c / real (sum_list cs) * real d))) cs"
    using main unfolding need_def fl_eq by simp
qed

end
